theory Spec2Isabelle
  imports Main "HOL-Library.Char_ord" "HOL-Library.List_Lexorder"
begin

section \<open>backup\_phone.py: reconciliation, verification and verified pull\<close>

text \<open>
  A shallow embedding of \<^verbatim>\<open>src/backup_phone.py\<close>. Conventions:

  \<^item> A Python \<^verbatim>\<open>str\<close> is a \<^typ>\<open>string\<close>; lists of paths are \<^typ>\<open>string list\<close>.
  \<^item> A Python \<^verbatim>\<open>set\<close> is a duplicate-free list. Python leaves the iteration order
    of a set unspecified; the model keeps the order of first occurrence. Every
    statement below about a list that comes out of a set speaks of its elements
    (\<^const>\<open>set\<close>) and of \<^const>\<open>distinct\<close> only, never of its order.
  \<^item> The local operating system is POSIX: \<^verbatim>\<open>os.path.sep\<close> is \<^verbatim>\<open>/\<close> and
    \<^verbatim>\<open>os.path\<close> is \<^verbatim>\<open>posixpath\<close>.
  \<^item> An exception is a value of type \<open>exn\<close>; a function that can raise returns
    \<open>exn + 'a\<close> with \<^const>\<open>Inl\<close> for the raise.
\<close>

subsection \<open>Exceptions\<close>

datatype exn =
    TypeError_bad_type_items "string list"
      \<comment> \<open>line 190: the message lists the sorted offending paths\<close>
  | TypeError_need_to_be_directory string
      \<comment> \<open>line 82: the message holds the full local path\<close>
  | TypeError_should_be_file string
      \<comment> \<open>line 268: the message holds the full local path\<close>
  | TypeError_raise_of_str string
      \<comment> \<open>line 157: \<^verbatim>\<open>raise\<close> applied to a \<^verbatim>\<open>str\<close>, which Python 3 turns
          into a TypeError; the argument is the full local path\<close>
  | FileNotFoundError string
  | FileExistsError string
  | NotADirectoryError string
  | IsADirectoryError string
  | CalledProcessError string
      \<comment> \<open>\<^verbatim>\<open>subprocess.check_output\<close> (line 112) on a non-zero exit status; the
          argument is the command\<close>
  | ValueError string
      \<comment> \<open>\<^verbatim>\<open>shlex.split\<close> (line 111) on an unbalanced quote, \<^verbatim>\<open>int\<close> (line 136)
          on an answer that is not a number\<close>

subsection \<open>Python sets as duplicate-free lists\<close>

definition py_set :: "'a list \<Rightarrow> 'a list" where
  "py_set xs = remdups xs"

definition set_difference :: "'a list \<Rightarrow> 'a list \<Rightarrow> 'a list" where
  "set_difference a b = filter (\<lambda>x. x \<notin> set b) a"

definition set_intersection :: "'a list \<Rightarrow> 'a list \<Rightarrow> 'a list" where
  "set_intersection a b = filter (\<lambda>x. x \<in> set b) a"

definition set_union :: "'a list \<Rightarrow> 'a list \<Rightarrow> 'a list" where
  "set_union a b = a @ filter (\<lambda>x. x \<notin> set a) b"

subsection \<open>Utility functions (lines 34--61)\<close>

definition os_path_sep :: char where
  "os_path_sep = CHR ''/''"

text \<open>\<^verbatim>\<open>s.replace(old, new)\<close> for one-character \<^verbatim>\<open>old\<close> and \<^verbatim>\<open>new\<close>.\<close>

definition str_replace_char :: "char \<Rightarrow> char \<Rightarrow> string \<Rightarrow> string" where
  "str_replace_char old new s = map (\<lambda>c. if c = old then new else c) s"

definition filename2osformat :: "string \<Rightarrow> string" where
  "filename2osformat f = str_replace_char (CHR ''/'') os_path_sep f"

definition filename2linuxformat :: "string \<Rightarrow> string" where
  "filename2linuxformat f = str_replace_char os_path_sep (CHR ''/'') f"

text \<open>\<^verbatim>\<open>linux_path_build(a, b)\<close> is \<^verbatim>\<open>'/'.join((a, b))\<close>; the source only calls it
  with two arguments.\<close>

definition linux_path_build :: "string \<Rightarrow> string \<Rightarrow> string" where
  "linux_path_build a b = a @ ''/'' @ b"

subsection \<open>Reconciliation (lines 173--193)\<close>

text \<open>
  \<^verbatim>\<open>get_missing_and_existing_files\<close> reads two listings: the pair of lists that
  \<^verbatim>\<open>get_src_all_files_and_dirs\<close> returns for the device and the pair that
  \<^verbatim>\<open>get_dst_all_files_and_dirs\<close> returns for the destination. Both are inputs of
  the model. The function itself touches no file.
\<close>

type_synonym listing = "string list \<times> string list"

definition get_missing_and_existing_files ::
  "listing \<Rightarrow> listing \<Rightarrow> exn + (string list \<times> string list \<times> string list \<times> string list)" where
  "get_missing_and_existing_files src_listing dst_listing =
     (let src_files = py_set (fst src_listing);
          src_dirs = py_set (snd src_listing);
          dst_files = py_set (map filename2linuxformat (fst dst_listing));
          dst_dirs = py_set (map filename2linuxformat (snd dst_listing));
          missing_files = set_difference src_files dst_files;
          existing_files = set_intersection src_files dst_files;
          missing_dirs = set_difference src_dirs dst_dirs;
          existing_dirs = set_intersection src_dirs dst_dirs;
          bad_type_items =
            set_union (set_intersection (py_set existing_files) (py_set missing_dirs))
                      (set_intersection (py_set missing_files) (py_set existing_dirs))
      in if bad_type_items \<noteq> []
         then Inl (TypeError_bad_type_items (sort bad_type_items))
         else Inr (missing_files, existing_files, missing_dirs, existing_dirs))"

subsection \<open>The local file system\<close>

text \<open>
  The local file system is a map from path strings to nodes. A regular file carries
  what the program reads of it: its size in bytes (\<^verbatim>\<open>os.path.getsize\<close>) and the
  SHA-1 digest of its content (\<^verbatim>\<open>sha1sum\<close>, lines 18--26). Paths are compared as
  strings: the model resolves no \<^verbatim>\<open>.\<close>, \<^verbatim>\<open>..\<close>, repeated separator or symbolic
  link, none of which \<^verbatim>\<open>find\<close> prints in a listing. The functions of
  \<^verbatim>\<open>os\<close> and \<^verbatim>\<open>os.path\<close> follow CPython's \<^verbatim>\<open>posixpath.py\<close> and
  \<^verbatim>\<open>os.py\<close>.
\<close>

datatype node = File nat string | Dir

type_synonym local_fs = "string \<rightharpoonup> node"

definition os_path_exists :: "local_fs \<Rightarrow> string \<Rightarrow> bool" where
  "os_path_exists fs p = (fs p \<noteq> None)"

definition os_path_isfile :: "local_fs \<Rightarrow> string \<Rightarrow> bool" where
  "os_path_isfile fs p = (case fs p of Some (File n h) \<Rightarrow> True | _ \<Rightarrow> False)"

definition os_path_isdir :: "local_fs \<Rightarrow> string \<Rightarrow> bool" where
  "os_path_isdir fs p = (fs p = Some Dir)"

definition os_path_join :: "string \<Rightarrow> string \<Rightarrow> string" where
  "os_path_join a b =
     (if (case b of [] \<Rightarrow> False | c # cs \<Rightarrow> c = CHR ''/'') then b
      else if a = [] \<or> last a = CHR ''/'' then a @ b
      else a @ ''/'' @ b)"

definition rstrip_slash :: "string \<Rightarrow> string" where
  "rstrip_slash s = rev (dropWhile (\<lambda>c. c = CHR ''/'') (rev s))"

definition os_path_split :: "string \<Rightarrow> string \<times> string" where
  "os_path_split p =
     (let tail = rev (takeWhile (\<lambda>c. c \<noteq> CHR ''/'') (rev p));
          head = rev (dropWhile (\<lambda>c. c \<noteq> CHR ''/'') (rev p))
      in (if head \<noteq> [] \<and> \<not> list_all (\<lambda>c. c = CHR ''/'') head then rstrip_slash head else head,
          tail))"

definition os_path_dirname :: "string \<Rightarrow> string" where
  "os_path_dirname p = fst (os_path_split p)"

definition os_path_basename :: "string \<Rightarrow> string" where
  "os_path_basename p = snd (os_path_split p)"


text \<open>
  \<^verbatim>\<open>os.mkdir\<close>: the parent must be a directory (an empty parent is the current
  directory) and the path itself must not exist.
\<close>

definition os_mkdir :: "string \<Rightarrow> local_fs \<Rightarrow> (exn + unit) \<times> local_fs" where
  "os_mkdir p fs =
     (let parent = os_path_dirname p
      in if p = [] then (Inl (FileNotFoundError p), fs)
         else if parent \<noteq> [] \<and> fs parent = None then (Inl (FileNotFoundError p), fs)
         else if parent \<noteq> [] \<and> fs parent \<noteq> Some Dir then (Inl (NotADirectoryError p), fs)
         else if fs p \<noteq> None then (Inl (FileExistsError p), fs)
         else (Inr (), fs(p \<mapsto> Dir)))"

definition os_remove :: "string \<Rightarrow> local_fs \<Rightarrow> (exn + unit) \<times> local_fs" where
  "os_remove p fs =
     (case fs p of
        None \<Rightarrow> (Inl (FileNotFoundError p), fs)
      | Some Dir \<Rightarrow> (Inl (IsADirectoryError p), fs)
      | Some (File n h) \<Rightarrow> (Inr (), fs(p := None)))"

text \<open>
  \<^verbatim>\<open>os.path.getsize\<close> of a directory returns the size of the directory entry,
  which the model does not keep; it answers 0 there. The program never asks: \<^verbatim>\<open>verify\<close>
  takes every local digest, which raises on a directory, before any local size, and
  \<^verbatim>\<open>pull_file\<close> checks \<^verbatim>\<open>os.path.isfile\<close> first.
\<close>

definition os_path_getsize :: "local_fs \<Rightarrow> string \<Rightarrow> exn + nat" where
  "os_path_getsize fs p =
     (case fs p of
        None \<Rightarrow> Inl (FileNotFoundError p)
      | Some (File n h) \<Rightarrow> Inr n
      | Some Dir \<Rightarrow> Inr 0)"

definition sha1sum :: "local_fs \<Rightarrow> string \<Rightarrow> exn + string" where
  "sha1sum fs filename =
     (case fs filename of
        None \<Rightarrow> Inl (FileNotFoundError filename)
      | Some Dir \<Rightarrow> Inl (IsADirectoryError filename)
      | Some (File n h) \<Rightarrow> Inr h)"

text \<open>
  \<^verbatim>\<open>os.makedirs(name, exist_ok=True)\<close>. \<open>makedirs_head_tail\<close> is its first three
  lines (split the name; if the tail is empty, split the head again);
  \<open>mkdir_exist_ok\<close> is its closing \<^verbatim>\<open>try: mkdir(name) except OSError\<close>, which
  re-raises unless the name is a directory by then.
\<close>

definition makedirs_head_tail :: "string \<Rightarrow> string \<times> string" where
  "makedirs_head_tail name =
     (if snd (os_path_split name) = [] then os_path_split (fst (os_path_split name))
      else os_path_split name)"

definition mkdir_exist_ok :: "string \<Rightarrow> local_fs \<Rightarrow> (exn + unit) \<times> local_fs" where
  "mkdir_exist_ok name fs =
     (case os_mkdir name fs of
        (Inr u, fs') \<Rightarrow> (Inr (), fs')
      | (Inl e, fs') \<Rightarrow> if \<not> os_path_isdir fs' name then (Inl e, fs') else (Inr (), fs'))"

fun is_FileExistsError :: "exn \<Rightarrow> bool" where
  "is_FileExistsError (FileExistsError p) = True"
| "is_FileExistsError e = False"

lemma length_rstrip_slash: "length (rstrip_slash s) \<le> length s"
  by (simp add: rstrip_slash_def length_dropWhile_le le_trans[OF length_dropWhile_le])

lemma os_path_split_shorter:
  "snd (os_path_split p) \<noteq> [] \<Longrightarrow> length (fst (os_path_split p)) < length p"
proof -
  let ?t = "takeWhile (\<lambda>c. c \<noteq> CHR ''/'') (rev p)"
  let ?h = "dropWhile (\<lambda>c. c \<noteq> CHR ''/'') (rev p)"
  assume "snd (os_path_split p) \<noteq> []"
  then have t: "?t \<noteq> []" by (simp add: os_path_split_def Let_def)
  have "length ?t + length ?h = length p"
    by (metis length_append length_rev takeWhile_dropWhile_id)
  with t have "length ?h < length p" by (cases ?t) auto
  moreover have "length (fst (os_path_split p)) \<le> length ?h"
    using length_rstrip_slash [of "rev ?h"] by (simp add: os_path_split_def Let_def)
  ultimately show ?thesis by simp
qed

lemma os_path_split_le: "length (fst (os_path_split p)) \<le> length p"
proof -
  have "length (dropWhile (\<lambda>c. c \<noteq> CHR ''/'') (rev p)) \<le> length p"
    by (metis length_dropWhile_le length_rev)
  moreover have "length (fst (os_path_split p)) \<le> length (dropWhile (\<lambda>c. c \<noteq> CHR ''/'') (rev p))"
    using length_rstrip_slash [of "rev (dropWhile (\<lambda>c. c \<noteq> CHR ''/'') (rev p))"]
    by (simp add: os_path_split_def Let_def)
  ultimately show ?thesis by simp
qed

lemma makedirs_head_shorter:
  "snd (makedirs_head_tail name) \<noteq> [] \<Longrightarrow> length (fst (makedirs_head_tail name)) < length name"
  using os_path_split_shorter [of name] os_path_split_shorter [of "fst (os_path_split name)"]
        os_path_split_le [of name]
  by (auto simp: makedirs_head_tail_def split: if_splits)

function os_makedirs :: "string \<Rightarrow> local_fs \<Rightarrow> (exn + unit) \<times> local_fs" where
  "os_makedirs name fs =
     (let head = fst (makedirs_head_tail name);
          tail = snd (makedirs_head_tail name)
      in if head \<noteq> [] \<and> tail \<noteq> [] \<and> \<not> os_path_exists fs head
         then (case os_makedirs head fs of
                 (Inl e, fs1) \<Rightarrow>
                   if is_FileExistsError e
                   then (if tail = ''.'' then (Inr (), fs1) else mkdir_exist_ok name fs1)
                   else (Inl e, fs1)
               | (Inr u, fs1) \<Rightarrow>
                   if tail = ''.'' then (Inr (), fs1) else mkdir_exist_ok name fs1)
         else mkdir_exist_ok name fs)"
  by pat_completeness auto
termination
  by (relation "measure (\<lambda>(name, fs). length name)") (auto simp: makedirs_head_shorter)

declare os_makedirs.simps [simp del]

subsection \<open>Local operations (lines 66--90)\<close>

text \<open>
  \<^verbatim>\<open>create_all_directories\<close> sorts the list (in place) and runs the loop of lines
  77--82.
\<close>

fun create_directories_loop :: "string \<Rightarrow> string list \<Rightarrow> local_fs \<Rightarrow> (exn + unit) \<times> local_fs" where
  "create_directories_loop path [] fs = (Inr (), fs)"
| "create_directories_loop path (d # ds) fs =
     (let full_path = os_path_join path (filename2osformat d)
      in if \<not> os_path_exists fs full_path
         then (case os_makedirs full_path fs of
                 (Inl e, fs1) \<Rightarrow> (Inl e, fs1)
               | (Inr u, fs1) \<Rightarrow> create_directories_loop path ds fs1)
         else if \<not> os_path_isdir fs full_path
         then (Inl (TypeError_need_to_be_directory full_path), fs)
         else create_directories_loop path ds fs)"

definition create_all_directories :: "string \<Rightarrow> string list \<Rightarrow> local_fs \<Rightarrow> (exn + unit) \<times> local_fs" where
  "create_all_directories path dirs fs = create_directories_loop path (sort dirs) fs"

text \<open>
  \<^verbatim>\<open>delete_files\<close> takes a list; a single \<^verbatim>\<open>str\<close> argument (line 321) is wrapped
  into a one-element list by lines 87--88, and is passed as such here.
\<close>

fun delete_files :: "string \<Rightarrow> string list \<Rightarrow> local_fs \<Rightarrow> (exn + unit) \<times> local_fs" where
  "delete_files dst_path [] fs = (Inr (), fs)"
| "delete_files dst_path (f # files) fs =
     (case os_remove (os_path_join dst_path (filename2osformat f)) fs of
        (Inl e, fs1) \<Rightarrow> (Inl e, fs1)
      | (Inr u, fs1) \<Rightarrow> delete_files dst_path files fs1)"

subsection \<open>The device and the user\<close>

text \<open>
  Everything the program learns through \<^verbatim>\<open>run\<close> (an \<^verbatim>\<open>adb\<close> command) or
  \<^verbatim>\<open>input\<close> is a field of the environment. \<^verbatim>\<open>run\<close> (lines 109--112) raises
  when \<^verbatim>\<open>shlex.split\<close> cannot split the command (a path with a quote in it) or when
  the command exits with a non-zero status, so every answer of the device is either an
  exception or a value:
  \<^item> \<open>devices_listed\<close>: whether the output of \<^verbatim>\<open>adb devices\<close> has a line matching
    the pattern of line 248;
  \<^item> \<open>src_path_type\<close>: the answer of \<^verbatim>\<open>get_src_path_type\<close> for a path;
  \<^item> \<open>src_listing\<close>: the two lists \<^verbatim>\<open>get_src_all_files_and_dirs\<close> returns;
  \<^item> \<open>dst_listing\<close>: the two lists \<^verbatim>\<open>get_dst_all_files_and_dirs\<close> returns for the
    destination when line 179 runs (the recursive walk of lines 93--106 is not embedded;
    statements that need the listing to agree with the file system say so);
  \<^item> \<open>src_file_size\<close>: \<^verbatim>\<open>int\<close> of the device's answer to \<^verbatim>\<open>stat\<close> for a full
    path (line 136), which also raises when the answer is not a number;
  \<^item> \<open>src_sha1\<close>: the device's answer to \<^verbatim>\<open>sha1sum\<close> for a full path (line 142);
  \<^item> \<open>adb_pull\<close>: what \<^verbatim>\<open>adb pull src dir\<close> (line 152) does to the local file
    system, an arbitrary function, and whether the command raises;
  \<^item> \<open>answer_delete\<close>, \<open>answer_override\<close>: whether the user's reply to the prompt of
    line 288, respectively line 299, matches \<^verbatim>\<open>^y(es)?$\<close>.

  The state of a run is the local file system and the log of the \<^verbatim>\<open>adb pull\<close>
  commands issued so far (source path, destination directory).
\<close>

record env =
  devices_listed :: "exn + bool"
  src_path_type :: "string \<Rightarrow> exn + string"
  src_listing :: "string \<Rightarrow> exn + listing"
  dst_listing :: "string \<Rightarrow> listing"
  src_file_size :: "string \<Rightarrow> exn + nat"
  src_sha1 :: "string \<Rightarrow> exn + string"
  adb_pull :: "string \<Rightarrow> string \<Rightarrow> local_fs \<Rightarrow> (exn + unit) \<times> local_fs"
  answer_delete :: bool
  answer_override :: bool

record world =
  w_fs :: local_fs
  w_pulls :: "(string \<times> string) list"

definition get_src_file_size :: "env \<Rightarrow> string \<Rightarrow> string \<Rightarrow> exn + nat" where
  "get_src_file_size e src_path f = src_file_size e (linux_path_build src_path f)"

definition get_src_sha1sum :: "env \<Rightarrow> string \<Rightarrow> string \<Rightarrow> exn + string" where
  "get_src_sha1sum e src_path f = src_sha1 e (linux_path_build src_path f)"

definition get_dst_sha1sum :: "local_fs \<Rightarrow> string \<Rightarrow> string \<Rightarrow> exn + string" where
  "get_dst_sha1sum fs dst_path f = sha1sum fs (os_path_join dst_path (filename2osformat f))"

subsection \<open>Pulling one file (lines 145--168)\<close>

datatype pull_status = success | not_pulled | wrong_size | wrong_hash

text \<open>
  The command of line 152 is logged whether it raises or not. In each comparison the
  device is asked before the local file is read (lines 161 and 164).
\<close>

definition pull_file :: "env \<Rightarrow> string \<Rightarrow> string \<Rightarrow> string \<Rightarrow> world \<Rightarrow> (exn + pull_status) \<times> world" where
  "pull_file e src_path dst_path f w =
     (let full_src_path = linux_path_build src_path f;
          full_dst_path = os_path_join dst_path (filename2osformat f);
          pulled = adb_pull e full_src_path (os_path_dirname full_dst_path) (w_fs w);
          w1 = \<lparr>w_fs = snd pulled,
                w_pulls = w_pulls w @ [(full_src_path, os_path_dirname full_dst_path)]\<rparr>
      in case fst pulled of
           Inl x \<Rightarrow> (Inl x, w1)
         | Inr u \<Rightarrow>
             if \<not> os_path_isfile (w_fs w1) full_dst_path
             then (if os_path_exists (w_fs w1) full_dst_path
                   then (Inl (TypeError_raise_of_str full_dst_path), w1)
                   else (Inr not_pulled, w1))
             else (case get_src_file_size e src_path f of
                     Inl x \<Rightarrow> (Inl x, w1)
                   | Inr src_size \<Rightarrow>
                 (case os_path_getsize (w_fs w1) full_dst_path of
                     Inl x \<Rightarrow> (Inl x, w1)
                   | Inr local_size \<Rightarrow>
                       if src_size \<noteq> local_size then (Inr wrong_size, w1)
                       else (case get_src_sha1sum e src_path f of
                               Inl x \<Rightarrow> (Inl x, w1)
                             | Inr src_hash \<Rightarrow>
                           (case get_dst_sha1sum (w_fs w1) dst_path f of
                               Inl x \<Rightarrow> (Inl x, w1)
                             | Inr local_hash \<Rightarrow>
                                 if src_hash \<noteq> local_hash
                                 then (Inr wrong_hash, w1)
                                 else (Inr success, w1))))))"

subsection \<open>Verification (lines 196--212)\<close>

text \<open>
  A dictionary comprehension \<^verbatim>\<open>{f: g(f) for f in xs}\<close> evaluates \<^verbatim>\<open>g\<close> on the
  elements in order and stops at the first raise. The dictionary is the list of its
  insertions; a lookup takes the latest insertion of the key. Every key that
  \<^verbatim>\<open>verify\<close> looks up was inserted, so no lookup raises.
\<close>

fun dict_comprehension :: "('k \<Rightarrow> exn + 'v) \<Rightarrow> 'k list \<Rightarrow> exn + ('k \<times> 'v) list" where
  "dict_comprehension g [] = Inr []"
| "dict_comprehension g (k # ks) =
     (case g k of
        Inl x \<Rightarrow> Inl x
      | Inr v \<Rightarrow> (case dict_comprehension g ks of
                    Inl x \<Rightarrow> Inl x
                  | Inr d \<Rightarrow> Inr ((k, v) # d)))"

definition dict_get :: "('k \<times> 'v) list \<Rightarrow> 'k \<Rightarrow> 'v option" where
  "dict_get d k = map_of (rev d) k"

definition verify :: "env \<Rightarrow> local_fs \<Rightarrow> string \<Rightarrow> string \<Rightarrow> string list \<Rightarrow> exn + string list" where
  "verify e fs src_path dst_path existing_files =
     (case dict_comprehension (\<lambda>f. get_src_sha1sum e src_path f) existing_files of
        Inl x \<Rightarrow> Inl x
      | Inr src_sha1sum \<Rightarrow>
     (case dict_comprehension (\<lambda>f. get_dst_sha1sum fs dst_path f) existing_files of
        Inl x \<Rightarrow> Inl x
      | Inr dst_sha1sums \<Rightarrow>
     (case dict_comprehension (\<lambda>f. get_src_file_size e src_path f) existing_files of
        Inl x \<Rightarrow> Inl x
      | Inr src_file_sizes \<Rightarrow>
     (case dict_comprehension
             (\<lambda>f. os_path_getsize fs (os_path_join dst_path (filename2osformat f))) existing_files of
        Inl x \<Rightarrow> Inl x
      | Inr dst_file_sizes \<Rightarrow>
          Inr (filter (\<lambda>f. dict_get src_sha1sum f \<noteq> dict_get dst_sha1sums f
                           \<or> dict_get src_file_sizes f \<noteq> dict_get dst_file_sizes f)
                      existing_files)))))"

subsection \<open>The command line and the run (lines 215--335)\<close>

text \<open>
  \<^verbatim>\<open>main\<close> is split along its comments: \<open>single_file_mode\<close> is lines 258--271,
  \<open>verify_and_repair\<close> lines 284--292, \<open>override_step\<close> lines 298--301,
  \<open>pull_loop\<close> lines 313--322, \<open>pull_missing_files\<close> lines 304--322,
  \<open>pull_and_report\<close> lines 297--335, \<open>backup\<close> lines 278--335 and \<open>main\<close> the
  whole. Printing is not modelled; the values printed are returned: the run ends with
  an error message (\<open>Aborted\<close>), at the \<^verbatim>\<open>return\<close> of line 295
  (\<open>Verified_only\<close>) or after the final report (\<open>Reported\<close>), and the outcome holds
  the variables \<^verbatim>\<open>missing_files\<close>, \<^verbatim>\<open>existing_files\<close>, \<^verbatim>\<open>bad_files\<close>
  (\<open>None\<close> when no verification ran) and \<^verbatim>\<open>failed_files\<close> as they are at that
  point. The sizes queried at lines 307--308 feed the progress bar only, but a query that
  raises ends the run before the first pull.
\<close>

record args =
  args_src_path :: string
  args_dst_path :: string
  args_override :: bool
  args_verify :: bool
  args_auto :: bool
  args_adb_path :: "string option"
  args_yes :: bool

datatype abort = Bad_ADB_path | Bad_destination_path | Phone_not_connected | Source_path_doesnt_exist

record outcome =
  final_missing_files :: "string list"
  final_existing_files :: "string list"
  final_bad_files :: "string list option"
  final_failed_files :: "string list"

datatype run_end = Aborted abort | Verified_only outcome | Reported outcome

definition single_file_mode ::
  "local_fs \<Rightarrow> string \<Rightarrow> string \<Rightarrow> exn + (string \<times> string list \<times> string list \<times> string list \<times> string list)" where
  "single_file_mode fs src_path dst_path =
     (let filename = os_path_basename src_path;
          src_path1 = os_path_dirname src_path;
          local_file_path = os_path_join dst_path (filename2osformat filename)
      in if os_path_exists fs local_file_path
         then (if \<not> os_path_isfile fs local_file_path
               then Inl (TypeError_should_be_file local_file_path)
               else Inr (src_path1, [], [filename], [], []))
         else Inr (src_path1, [filename], [], [], []))"

definition verify_and_repair ::
  "env \<Rightarrow> args \<Rightarrow> string \<Rightarrow> string \<Rightarrow> string list \<Rightarrow> string list \<Rightarrow> local_fs
     \<Rightarrow> (exn + (string list \<times> string list \<times> string list)) \<times> local_fs" where
  "verify_and_repair e a src_path dst_path missing_files existing_files fs =
     (case verify e fs src_path dst_path existing_files of
        Inl x \<Rightarrow> (Inl x, fs)
      | Inr bad_files \<Rightarrow>
          (case (if bad_files \<noteq> [] \<and> (args_yes a \<or> answer_delete e)
                 then delete_files dst_path bad_files fs
                 else (Inr (), fs)) of
             (Inl x, fs1) \<Rightarrow> (Inl x, fs1)
           | (Inr u, fs1) \<Rightarrow>
               (Inr (bad_files,
                     missing_files @ bad_files,
                     set_difference (py_set existing_files) (py_set bad_files)), fs1)))"

definition override_step :: "env \<Rightarrow> args \<Rightarrow> string list \<Rightarrow> string list \<Rightarrow> string list" where
  "override_step e a missing_files existing_files =
     (if args_override a
      then (if args_yes a \<or> answer_override e then missing_files @ existing_files
            else missing_files)
      else missing_files)"

fun pull_loop ::
  "env \<Rightarrow> string \<Rightarrow> string \<Rightarrow> string list \<Rightarrow> string list \<Rightarrow> world \<Rightarrow> (exn + string list) \<times> world" where
  "pull_loop e src_path dst_path [] failed_files w = (Inr failed_files, w)"
| "pull_loop e src_path dst_path (f # rest) failed_files w =
     (case pull_file e src_path dst_path f w of
        (Inl x, w1) \<Rightarrow> (Inl x, w1)
      | (Inr pull_status, w1) \<Rightarrow>
          if pull_status \<noteq> success
          then (if pull_status \<noteq> not_pulled
                then (case delete_files dst_path [f] (w_fs w1) of
                        (Inl x, fs2) \<Rightarrow> (Inl x, w1\<lparr>w_fs := fs2\<rparr>)
                      | (Inr u, fs2) \<Rightarrow>
                          pull_loop e src_path dst_path rest (failed_files @ [f]) (w1\<lparr>w_fs := fs2\<rparr>))
                else pull_loop e src_path dst_path rest (failed_files @ [f]) w1)
          else pull_loop e src_path dst_path rest failed_files w1)"

definition pull_missing_files ::
  "env \<Rightarrow> string \<Rightarrow> string \<Rightarrow> string list \<Rightarrow> world \<Rightarrow> (exn + string list) \<times> world" where
  "pull_missing_files e src_path dst_path missing_files w =
     (if missing_files \<noteq> []
      then (case dict_comprehension (\<lambda>f. get_src_file_size e src_path f) missing_files of
              Inl x \<Rightarrow> (Inl x, w)
            | Inr src_file_sizes \<Rightarrow> pull_loop e src_path dst_path missing_files [] w)
      else (Inr [], w))"

definition pull_and_report ::
  "env \<Rightarrow> args \<Rightarrow> string \<Rightarrow> string \<Rightarrow> string list \<Rightarrow> string list \<Rightarrow> string list option \<Rightarrow> world
     \<Rightarrow> (exn + run_end) \<times> world" where
  "pull_and_report e a src_path dst_path missing_files existing_files bad_files w =
     (let missing_files1 = override_step e a missing_files existing_files
      in case pull_missing_files e src_path dst_path missing_files1 w of
           (Inl x, w1) \<Rightarrow> (Inl x, w1)
         | (Inr failed_files, w1) \<Rightarrow>
             (Inr (Reported \<lparr>final_missing_files = missing_files1,
                              final_existing_files = existing_files,
                              final_bad_files = bad_files,
                              final_failed_files = failed_files\<rparr>), w1))"

definition backup ::
  "env \<Rightarrow> args \<Rightarrow> string \<Rightarrow> string \<Rightarrow> string list \<Rightarrow> string list \<Rightarrow> string list \<Rightarrow> world
     \<Rightarrow> (exn + run_end) \<times> world" where
  "backup e a src_path dst_path missing_files existing_files missing_dirs w =
     (case create_all_directories dst_path missing_dirs (w_fs w) of
        (Inl x, fs1) \<Rightarrow> (Inl x, w\<lparr>w_fs := fs1\<rparr>)
      | (Inr u, fs1) \<Rightarrow>
          if args_verify a \<or> args_auto a
          then (case verify_and_repair e a src_path dst_path missing_files existing_files fs1 of
                  (Inl x, fs2) \<Rightarrow> (Inl x, w\<lparr>w_fs := fs2\<rparr>)
                | (Inr (bad_files, missing_files1, existing_files1), fs2) \<Rightarrow>
                    if args_verify a
                    then (Inr (Verified_only \<lparr>final_missing_files = missing_files1,
                                               final_existing_files = existing_files1,
                                               final_bad_files = Some bad_files,
                                               final_failed_files = []\<rparr>), w\<lparr>w_fs := fs2\<rparr>)
                    else pull_and_report e a src_path dst_path missing_files1 existing_files1
                           (Some bad_files) (w\<lparr>w_fs := fs2\<rparr>))
          else pull_and_report e a src_path dst_path missing_files existing_files None
                 (w\<lparr>w_fs := fs1\<rparr>))"

definition main :: "env \<Rightarrow> args \<Rightarrow> world \<Rightarrow> (exn + run_end) \<times> world" where
  "main e a w =
     (let src_path = args_src_path a;
          dst_path = args_dst_path a;
          adb_path = (case args_adb_path a of
                        None \<Rightarrow> ''adb''
                      | Some p \<Rightarrow> if p \<noteq> [] then p else ''adb'')
      in if \<not> os_path_isfile (w_fs w) adb_path then (Inr (Aborted Bad_ADB_path), w)
         else if \<not> os_path_isdir (w_fs w) dst_path then (Inr (Aborted Bad_destination_path), w)
         else (case devices_listed e of
                 Inl x \<Rightarrow> (Inl x, w)
               | Inr listed \<Rightarrow>
         if \<not> listed then (Inr (Aborted Phone_not_connected), w)
         else (case src_path_type e src_path of
                 Inl x \<Rightarrow> (Inl x, w)
               | Inr src_type \<Rightarrow>
                  if src_type = ''none'' then (Inr (Aborted Source_path_doesnt_exist), w)
                  else if src_type = ''file''
                  then (case single_file_mode (w_fs w) src_path dst_path of
                          Inl x \<Rightarrow> (Inl x, w)
                        | Inr (src_path1, missing_files, existing_files, missing_dirs, existing_dirs) \<Rightarrow>
                            backup e a src_path1 dst_path missing_files existing_files missing_dirs w)
                  else (case src_listing e src_path of
                          Inl x \<Rightarrow> (Inl x, w)
                        | Inr src_lists \<Rightarrow>
                       (case get_missing_and_existing_files src_lists (dst_listing e dst_path) of
                          Inl x \<Rightarrow> (Inl x, w)
                        | Inr (missing_files, existing_files, missing_dirs, existing_dirs) \<Rightarrow>
                            backup e a src_path dst_path missing_files existing_files missing_dirs w)))))"

subsection \<open>A concrete device and destination\<close>

text \<open>
  The device holds \<^verbatim>\<open>dirA/f1\<close> (100 bytes, digest \<open>d1\<close>) and \<^verbatim>\<open>f2\<close> (50 bytes,
  digest \<open>d2\<close>) under \<^verbatim>\<open>/sdcard/bk\<close>; every pull delivers 50 bytes of digest
  \<open>d2\<close>, a correct copy of \<^verbatim>\<open>f2\<close> and a truncated one of \<^verbatim>\<open>dirA/f1\<close>. The destination \<^verbatim>\<open>/bk\<close> holds both files, \<^verbatim>\<open>f2\<close> with a wrong
  digest.
\<close>

definition demo_phone :: env where
  "demo_phone = \<lparr>devices_listed = Inr True,
            src_path_type = (\<lambda>p. Inr ''directory''),
            src_listing = (\<lambda>p. Inr ([''dirA/f1'', ''f2''], [''dirA''])),
            dst_listing = (\<lambda>p. ([''dirA/f1'', ''f2''], [''dirA''])),
            src_file_size = (\<lambda>p. if p = ''/sdcard/bk/f2'' then Inr 50 else Inr 100),
            src_sha1 = (\<lambda>p. if p = ''/sdcard/bk/f2'' then Inr ''d2'' else Inr ''d1''),
            adb_pull = (\<lambda>src dir fs.
                          (Inr (), fs(os_path_join dir (os_path_basename src) \<mapsto> File 50 ''d2''))),
            answer_delete = False,
            answer_override = False\<rparr>"

definition demo_fs :: local_fs where
  "demo_fs = [''/usr/bin/adb'' \<mapsto> File 1 ''adb'', ''/bk'' \<mapsto> Dir, ''/bk/dirA'' \<mapsto> Dir,
              ''/bk/dirA/f1'' \<mapsto> File 100 ''d1'', ''/bk/f2'' \<mapsto> File 50 ''xx'']"

text \<open>
  The command line names the two directories and the adb binary and approves every
  deletion (\<^verbatim>\<open>--yes\<close>); the other flags are set where they are used.
\<close>

definition demo_args :: args where
  "demo_args = \<lparr>args_src_path = ''/sdcard/bk'', args_dst_path = ''/bk'',
                 args_override = False, args_verify = False, args_auto = False,
                 args_adb_path = Some ''/usr/bin/adb'', args_yes = True\<rparr>"

definition demo_pc :: world where
  "demo_pc = \<lparr>w_fs = demo_fs, w_pulls = []\<rparr>"

subsection \<open>A frame condition\<close>

text \<open>
  \<open>only_adds_directories fs fs'\<close>: going from \<open>fs\<close> to \<open>fs'\<close>, every path keeps its
  node, or was absent and is now a directory whose parent (when the path names one) is
  a directory of \<open>fs'\<close>. It is not part of the program; the properties of
  \<open>create_all_directories\<close> are stated with it.
\<close>

definition only_adds_directories :: "local_fs \<Rightarrow> local_fs \<Rightarrow> bool" where
  "only_adds_directories fs fs' =
     (\<forall>q. fs' q = fs q
        \<or> (fs q = None \<and> fs' q = Some Dir
            \<and> (os_path_dirname q = [] \<or> fs' (os_path_dirname q) = Some Dir)))"

text \<open>
  \<open>is_path_or_ancestor q p\<close>: \<open>q\<close> is the path \<open>p\<close> or a directory above it, that is,
  \<open>p\<close> continues \<open>q\<close> with a separator.
\<close>

definition is_path_or_ancestor :: "string \<Rightarrow> string \<Rightarrow> bool" where
  "is_path_or_ancestor q p = (q = p \<or> take (Suc (length q)) p = q @ ''/'')"


section \<open>Properties\<close>

subsection \<open>Facts about the set operations\<close>

lemma set_py_set: "set (py_set xs) = set xs"
  by (simp add: py_set_def)

lemma distinct_py_set: "distinct (py_set xs)"
  by (simp add: py_set_def)

lemma set_set_difference: "set (set_difference a b) = set a - set b"
  by (auto simp: set_difference_def)

lemma set_set_intersection: "set (set_intersection a b) = set a \<inter> set b"
  by (auto simp: set_intersection_def)

lemma set_set_union: "set (set_union a b) = set a \<union> set b"
  by (auto simp: set_union_def)

lemma distinct_set_difference: "distinct a \<Longrightarrow> distinct (set_difference a b)"
  by (simp add: set_difference_def)

lemma distinct_set_intersection: "distinct a \<Longrightarrow> distinct (set_intersection a b)"
  by (simp add: set_intersection_def)

lemma distinct_set_union: "distinct a \<Longrightarrow> distinct b \<Longrightarrow> distinct (set_union a b)"
  by (auto simp: set_union_def)

lemma filename2osformat_id: "filename2osformat f = f"
  by (simp add: filename2osformat_def str_replace_char_def os_path_sep_def map_idI)

lemma filename2linuxformat_id: "filename2linuxformat f = f"
  by (simp add: filename2linuxformat_def str_replace_char_def os_path_sep_def map_idI)

section \<open>Properties of the reconciler\<close>

lemma bad_type_items_nil_iff:
  "set_union (set_intersection (py_set a) (py_set b)) (set_intersection (py_set c) (py_set d)) = []
   \<longleftrightarrow> (set a \<inter> set b) \<union> (set c \<inter> set d) = {}"
proof -
  have "set (set_union (set_intersection (py_set a) (py_set b))
                       (set_intersection (py_set c) (py_set d)))
        = (set a \<inter> set b) \<union> (set c \<inter> set d)"
    by (simp add: set_set_union set_set_intersection set_py_set)
  then show ?thesis
    by (metis set_empty)
qed

lemma distinct_bad_type_items:
  "distinct (set_union (set_intersection (py_set a) (py_set b)) (set_intersection (py_set c) (py_set d)))"
  by (simp add: distinct_set_union distinct_set_intersection distinct_py_set)

text \<open>
  Claim C2. The claim: whenever one relative path is a regular file on one side and a
  directory on the other (in particular remote files \<open>{a}\<close>, local directories \<open>{a}\<close>,
  and \<open>a\<close> neither a remote directory nor a local file), reconciliation fails with a
  type-conflict error naming the path. The source does not: for exactly that input
  \<^verbatim>\<open>bad_type_items\<close> is empty, since \<open>a\<close> is a missing file but not an existing
  directory (it is no remote directory), and the four lists are returned normally with
  \<open>a\<close> queued as a missing file.
\<close>

theorem reconcile_file_vs_dir_undetected:
  "get_missing_and_existing_files ([''a''], []) ([], [''a'']) = Inr ([''a''], [], [], [])"
  by (simp add: get_missing_and_existing_files_def py_set_def set_difference_def
        set_intersection_def set_union_def)

text \<open>
  Claim C3. For every pair of listings, whenever reconciliation returns, the missing
  files are the remote files that are no local files, the existing files are the remote
  files that are local files too, and likewise for directories; so missing and existing
  files partition the remote files, and missing and existing directories partition the
  remote directories. Each returned list is duplicate-free. Reconciliation does return
  whenever no path is listed as both a remote file and a remote directory, which is the
  case for every listing of a file system.
\<close>

theorem reconcile_partition:
  fixes rf rd lf ld :: "string list"
  shows "(set rf \<inter> set rd = {} \<longrightarrow>
           (\<exists>mf ef md ed. get_missing_and_existing_files (rf, rd) (lf, ld) = Inr (mf, ef, md, ed)))
       \<and> (\<forall>mf ef md ed.
            get_missing_and_existing_files (rf, rd) (lf, ld) = Inr (mf, ef, md, ed) \<longrightarrow>
              set mf = set rf - filename2linuxformat ` set lf
            \<and> set ef = set rf \<inter> filename2linuxformat ` set lf
            \<and> set md = set rd - filename2linuxformat ` set ld
            \<and> set ed = set rd \<inter> filename2linuxformat ` set ld
            \<and> set mf \<union> set ef = set rf \<and> set mf \<inter> set ef = {}
            \<and> set md \<union> set ed = set rd \<and> set md \<inter> set ed = {}
            \<and> distinct mf \<and> distinct ef \<and> distinct md \<and> distinct ed)"
  unfolding get_missing_and_existing_files_def Let_def bad_type_items_nil_iff
  by (auto simp: set_set_union set_set_intersection set_set_difference set_py_set
        distinct_set_difference distinct_set_intersection distinct_py_set split: if_splits)

theorem reconcile_partition_witness:
  "set [''dirA/f1'', ''f2''] \<inter> set [''dirA''] = {}
   \<and> (\<exists>mf ef md ed. get_missing_and_existing_files ([''dirA/f1'', ''f2''], [''dirA'']) ([''f2''], [])
              = Inr (mf, ef, md, ed) \<and> set mf = {''dirA/f1''} \<and> set ef = {''f2''}
              \<and> set mf \<union> set ef = {''dirA/f1'', ''f2''} \<and> set mf \<inter> set ef = {})"
  using reconcile_partition [of "[''dirA/f1'', ''f2'']" "[''dirA'']" "[''f2'']" "[]"]
  by (auto simp: filename2linuxformat_id)

text \<open>
  Claim C4. With \<open>badTypeItems = (existingFiles \<inter> missingDirs) \<union> (missingFiles \<inter>
  existingDirs)\<close>, reconciliation raises the type error exactly when \<open>badTypeItems\<close> is
  non-empty, and the error then carries the offending paths (each once, sorted); when
  \<open>badTypeItems\<close> is empty it returns the four sets.
\<close>

theorem reconcile_type_check:
  fixes rf rd lf ld :: "string list"
  defines "R_f \<equiv> set rf" and "R_d \<equiv> set rd"
    and "L_f \<equiv> filename2linuxformat ` set lf" and "L_d \<equiv> filename2linuxformat ` set ld"
  defines "bad \<equiv> ((R_f \<inter> L_f) \<inter> (R_d - L_d)) \<union> ((R_f - L_f) \<inter> (R_d \<inter> L_d))"
  shows "(bad \<noteq> {} \<longrightarrow>
            (\<exists>paths. get_missing_and_existing_files (rf, rd) (lf, ld)
                        = Inl (TypeError_bad_type_items paths)
                    \<and> set paths = bad \<and> distinct paths \<and> sorted paths))
       \<and> (bad = {} \<longrightarrow>
            (\<exists>mf ef md ed. get_missing_and_existing_files (rf, rd) (lf, ld)
                        = Inr (mf, ef, md, ed)
                    \<and> set mf = R_f - L_f \<and> set ef = R_f \<inter> L_f
                    \<and> set md = R_d - L_d \<and> set ed = R_d \<inter> L_d))"
  unfolding get_missing_and_existing_files_def Let_def bad_type_items_nil_iff
  by (simp add: set_set_union set_set_intersection set_set_difference set_py_set
        distinct_bad_type_items assms)

theorem reconcile_type_check_witness:
  "(\<exists>paths. get_missing_and_existing_files ([''a'', ''b''], [''a'', ''b'']) ([''a''], [''b''])
              = Inl (TypeError_bad_type_items paths) \<and> set paths = {''a'', ''b''})
   \<and> (\<exists>mf ef md ed. get_missing_and_existing_files ([''dirA/f1'', ''f2''], [''dirA'']) ([''f2''], [])
              = Inr (mf, ef, md, ed) \<and> set mf = {''dirA/f1''} \<and> set ef = {''f2''}
              \<and> set md = {''dirA''} \<and> set ed = {})"
  using reconcile_type_check [of "[''a'', ''b'']" "[''a'']" "[''a'', ''b'']" "[''b'']"]
        reconcile_type_check [of "[''dirA/f1'', ''f2'']" "[''f2'']" "[''dirA'']" "[]"]
  by (auto simp: filename2linuxformat_id)

section \<open>Properties of the verifier\<close>

lemma dict_comprehension_Inr:
  "\<forall>k\<in>set ks. g k = Inr (h k) \<Longrightarrow> dict_comprehension g ks = Inr (map (\<lambda>k. (k, h k)) ks)"
  by (induction ks) auto

lemma dict_comprehension_Inl:
  "k \<in> set ks \<Longrightarrow> g k = Inl x \<Longrightarrow> \<exists>y. dict_comprehension g ks = Inl y"
  by (induction ks) (auto split: sum.splits)

lemma dict_get_map:
  "dict_get (map (\<lambda>k. (k, h k)) ks) k = (if k \<in> set ks then Some (h k) else None)"
  by (simp add: dict_get_def rev_map map_of_map_restrict restrict_map_def)

fun node_size :: "node option \<Rightarrow> nat" where
  "node_size (Some (File n h)) = n"
| "node_size other = 0"

fun node_hash :: "node option \<Rightarrow> string" where
  "node_hash (Some (File n h)) = h"
| "node_hash other = []"

lemma os_path_isfile_iff: "os_path_isfile fs p \<longleftrightarrow> (\<exists>n h. fs p = Some (File n h))"
proof (cases "fs p")
  case None
  then show ?thesis by (simp add: os_path_isfile_def)
next
  case (Some nd)
  then show ?thesis by (cases nd) (simp_all add: os_path_isfile_def)
qed

lemma isfile_getsize:
  "os_path_isfile fs p \<Longrightarrow> os_path_getsize fs p = Inr (node_size (fs p))"
  by (auto simp: os_path_isfile_def os_path_getsize_def split: option.splits node.splits)

lemma isfile_sha1sum:
  "os_path_isfile fs p \<Longrightarrow> sha1sum fs p = Inr (node_hash (fs p))"
  by (auto simp: os_path_isfile_def sha1sum_def split: option.splits node.splits)

lemma not_isfile_sha1sum:
  "\<not> os_path_isfile fs p \<Longrightarrow> \<exists>x. sha1sum fs p = Inl x"
  by (auto simp: os_path_isfile_def sha1sum_def split: option.splits node.splits)

lemma dict_comprehension_answers:
  "\<forall>k\<in>set ks. \<not> isl (g k) \<Longrightarrow>
     dict_comprehension g ks = Inr (map (\<lambda>k. (k, projr (g k))) ks)"
  by (rule dict_comprehension_Inr) (simp add: sum.expand)

lemma dict_comprehension_Inr_iff:
  "(\<exists>d. dict_comprehension g ks = Inr d) \<longleftrightarrow> (\<forall>k\<in>set ks. \<not> isl (g k))"
proof
  assume "\<exists>d. dict_comprehension g ks = Inr d"
  then obtain d where d: "dict_comprehension g ks = Inr d" ..
  show "\<forall>k\<in>set ks. \<not> isl (g k)"
  proof (intro ballI notI)
    fix k
    assume "k \<in> set ks" "isl (g k)"
    then obtain x where "g k = Inl x" by (cases "g k") auto
    with \<open>k \<in> set ks\<close> d dict_comprehension_Inl [of k ks g x] show False by auto
  qed
next
  assume "\<forall>k\<in>set ks. \<not> isl (g k)"
  from dict_comprehension_answers [OF this] show "\<exists>d. dict_comprehension g ks = Inr d" by blast
qed

lemma verify_files:
  assumes "\<forall>f\<in>set existing_files. os_path_isfile fs (os_path_join dst_path (filename2osformat f))"
    and "\<forall>f\<in>set existing_files. \<not> isl (get_src_sha1sum e src_path f)"
    and "\<forall>f\<in>set existing_files. \<not> isl (get_src_file_size e src_path f)"
  shows "verify e fs src_path dst_path existing_files =
           Inr (filter (\<lambda>f. get_src_sha1sum e src_path f
                               \<noteq> Inr (node_hash (fs (os_path_join dst_path (filename2osformat f))))
                           \<or> get_src_file_size e src_path f
                               \<noteq> Inr (node_size (fs (os_path_join dst_path (filename2osformat f)))))
                       existing_files)"
proof -
  have a: "dict_comprehension (\<lambda>f. get_src_sha1sum e src_path f) existing_files
             = Inr (map (\<lambda>f. (f, projr (get_src_sha1sum e src_path f))) existing_files)"
    by (rule dict_comprehension_answers) (rule assms(2))
  have b: "dict_comprehension (\<lambda>f. get_dst_sha1sum fs dst_path f) existing_files
             = Inr (map (\<lambda>f. (f, node_hash (fs (os_path_join dst_path (filename2osformat f)))))
                        existing_files)"
    by (rule dict_comprehension_Inr) (use assms(1) in \<open>simp add: get_dst_sha1sum_def isfile_sha1sum\<close>)
  have c: "dict_comprehension (\<lambda>f. get_src_file_size e src_path f) existing_files
             = Inr (map (\<lambda>f. (f, projr (get_src_file_size e src_path f))) existing_files)"
    by (rule dict_comprehension_answers) (rule assms(3))
  have d: "dict_comprehension
             (\<lambda>f. os_path_getsize fs (os_path_join dst_path (filename2osformat f))) existing_files
             = Inr (map (\<lambda>f. (f, node_size (fs (os_path_join dst_path (filename2osformat f)))))
                        existing_files)"
    by (rule dict_comprehension_Inr) (use assms(1) in \<open>simp add: isfile_getsize\<close>)
  have p: "(projr (get_src_sha1sum e src_path f) = v) = (get_src_sha1sum e src_path f = Inr v)"
    if "f \<in> set existing_files" for f v
    using assms(2) that by (cases "get_src_sha1sum e src_path f") auto
  have q: "(projr (get_src_file_size e src_path f) = v) = (get_src_file_size e src_path f = Inr v)"
    if "f \<in> set existing_files" for f v
    using assms(3) that by (cases "get_src_file_size e src_path f") auto
  show ?thesis
    unfolding verify_def a b c d
    by (simp add: dict_get_map) (rule filter_cong, simp, simp add: p q)
qed

lemma verify_Inr_iff:
  "(\<exists>bad. verify e fs src_path dst_path existing_files = Inr bad) \<longleftrightarrow>
     (\<forall>f\<in>set existing_files.
        os_path_isfile fs (os_path_join dst_path (filename2osformat f))
        \<and> \<not> isl (get_src_sha1sum e src_path f) \<and> \<not> isl (get_src_file_size e src_path f))"
proof
  assume "\<exists>bad. verify e fs src_path dst_path existing_files = Inr bad"
  then obtain bad where v: "verify e fs src_path dst_path existing_files = Inr bad" ..
  then obtain d1 d2 d3 where
    1: "dict_comprehension (\<lambda>f. get_src_sha1sum e src_path f) existing_files = Inr d1" and
    2: "dict_comprehension (\<lambda>f. get_dst_sha1sum fs dst_path f) existing_files = Inr d2" and
    3: "dict_comprehension (\<lambda>f. get_src_file_size e src_path f) existing_files = Inr d3"
    by (auto simp: verify_def split: sum.splits)
  from 1 have a: "\<forall>f\<in>set existing_files. \<not> isl (get_src_sha1sum e src_path f)"
    using dict_comprehension_Inr_iff [of "\<lambda>f. get_src_sha1sum e src_path f" existing_files] by blast
  from 2 have "\<forall>f\<in>set existing_files. \<not> isl (get_dst_sha1sum fs dst_path f)"
    using dict_comprehension_Inr_iff [of "\<lambda>f. get_dst_sha1sum fs dst_path f" existing_files] by blast
  then have b: "\<forall>f\<in>set existing_files. os_path_isfile fs (os_path_join dst_path (filename2osformat f))"
    using not_isfile_sha1sum by (fastforce simp: get_dst_sha1sum_def)
  from 3 have c: "\<forall>f\<in>set existing_files. \<not> isl (get_src_file_size e src_path f)"
    using dict_comprehension_Inr_iff [of "\<lambda>f. get_src_file_size e src_path f" existing_files] by blast
  from a b c show "\<forall>f\<in>set existing_files.
        os_path_isfile fs (os_path_join dst_path (filename2osformat f))
        \<and> \<not> isl (get_src_sha1sum e src_path f) \<and> \<not> isl (get_src_file_size e src_path f)"
    by blast
next
  assume "\<forall>f\<in>set existing_files.
        os_path_isfile fs (os_path_join dst_path (filename2osformat f))
        \<and> \<not> isl (get_src_sha1sum e src_path f) \<and> \<not> isl (get_src_file_size e src_path f)"
  then show "\<exists>bad. verify e fs src_path dst_path existing_files = Inr bad"
    using verify_files [of existing_files fs dst_path e src_path] by simp
qed

lemma verify_not_file:
  assumes "f \<in> set existing_files"
    and "\<not> os_path_isfile fs (os_path_join dst_path (filename2osformat f))"
  shows "\<exists>x. verify e fs src_path dst_path existing_files = Inl x"
proof (cases "verify e fs src_path dst_path existing_files")
  case (Inl x)
  then show ?thesis by blast
next
  case (Inr bad)
  with verify_Inr_iff [of e fs src_path dst_path existing_files] assms show ?thesis by blast
qed

text \<open>
  Claim C5. \<^verbatim>\<open>verify\<close> returns exactly when every path handed to it is a local regular
  file (as every existing file is) and the device answers the digest and the size query
  for each of them. It then returns exactly the paths whose remote digest differs from the
  local digest or whose remote size differs from the local size, either alone sufficing,
  in the order of the input and without duplicates when the input has none. When a path is
  not a local regular file, or a query raises (as for a name that holds a quote), it
  raises.
\<close>

theorem verify_returns_faulty_subset:
  fixes e :: env and fs :: local_fs and src_path dst_path :: string
  defines "local_node \<equiv> (\<lambda>f. fs (os_path_join dst_path (filename2osformat f)))"
  defines "remote \<equiv> (\<lambda>f. linux_path_build src_path f)"
  shows "((\<forall>f\<in>set existing_files.
              os_path_isfile fs (os_path_join dst_path (filename2osformat f))
              \<and> (\<exists>h. src_sha1 e (remote f) = Inr h) \<and> (\<exists>n. src_file_size e (remote f) = Inr n)) \<longrightarrow>
            (\<exists>faulty. verify e fs src_path dst_path existing_files = Inr faulty
               \<and> faulty = filter (\<lambda>f. f \<in> set faulty) existing_files
               \<and> set faulty =
                   {f \<in> set existing_files.
                      \<exists>n h. local_node f = Some (File n h)
                        \<and> (src_sha1 e (remote f) \<noteq> Inr h \<or> src_file_size e (remote f) \<noteq> Inr n)}
               \<and> (distinct existing_files \<longrightarrow> distinct faulty)))
       \<and> ((\<exists>f\<in>set existing_files.
              \<not> os_path_isfile fs (os_path_join dst_path (filename2osformat f))
              \<or> (\<exists>x. src_sha1 e (remote f) = Inl x) \<or> (\<exists>x. src_file_size e (remote f) = Inl x)) \<longrightarrow>
            (\<exists>x. verify e fs src_path dst_path existing_files = Inl x))"
proof (intro conjI impI)
  let ?bad = "\<lambda>f. get_src_sha1sum e src_path f \<noteq> Inr (node_hash (local_node f))
                 \<or> get_src_file_size e src_path f \<noteq> Inr (node_size (local_node f))"
  assume h: "\<forall>f\<in>set existing_files.
              os_path_isfile fs (os_path_join dst_path (filename2osformat f))
              \<and> (\<exists>h. src_sha1 e (remote f) = Inr h) \<and> (\<exists>n. src_file_size e (remote f) = Inr n)"
  then have files: "\<forall>f\<in>set existing_files. os_path_isfile fs (os_path_join dst_path (filename2osformat f))"
    and a1: "\<forall>f\<in>set existing_files. \<not> isl (get_src_sha1sum e src_path f)"
    and a2: "\<forall>f\<in>set existing_files. \<not> isl (get_src_file_size e src_path f)"
    by (auto simp: get_src_sha1sum_def get_src_file_size_def remote_def)
  have v: "verify e fs src_path dst_path existing_files = Inr (filter ?bad existing_files)"
    unfolding local_node_def by (rule verify_files [OF files a1 a2])
  have node: "\<And>f. f \<in> set existing_files \<Longrightarrow> \<exists>n h. local_node f = Some (File n h)"
    using files by (simp add: os_path_isfile_iff local_node_def)
  have s: "set (filter ?bad existing_files) =
                   {f \<in> set existing_files.
                      \<exists>n h. local_node f = Some (File n h)
                        \<and> (src_sha1 e (remote f) \<noteq> Inr h \<or> src_file_size e (remote f) \<noteq> Inr n)}"
    using node by (fastforce simp: get_src_sha1sum_def get_src_file_size_def remote_def)
  have f: "filter ?bad existing_files
             = filter (\<lambda>f. f \<in> set (filter ?bad existing_files)) existing_files"
    by (rule filter_cong) auto
  show "\<exists>faulty. verify e fs src_path dst_path existing_files = Inr faulty
               \<and> faulty = filter (\<lambda>f. f \<in> set faulty) existing_files
               \<and> set faulty =
                   {f \<in> set existing_files.
                      \<exists>n h. local_node f = Some (File n h)
                        \<and> (src_sha1 e (remote f) \<noteq> Inr h \<or> src_file_size e (remote f) \<noteq> Inr n)}
               \<and> (distinct existing_files \<longrightarrow> distinct faulty)"
    using v s f by (intro exI [of _ "filter ?bad existing_files"]) simp
next
  assume "\<exists>f\<in>set existing_files.
              \<not> os_path_isfile fs (os_path_join dst_path (filename2osformat f))
              \<or> (\<exists>x. src_sha1 e (remote f) = Inl x) \<or> (\<exists>x. src_file_size e (remote f) = Inl x)"
  then obtain f where "f \<in> set existing_files"
    "\<not> os_path_isfile fs (os_path_join dst_path (filename2osformat f))
     \<or> isl (get_src_sha1sum e src_path f) \<or> isl (get_src_file_size e src_path f)"
    by (auto simp: get_src_sha1sum_def get_src_file_size_def remote_def)
  then have "\<not> (\<forall>f\<in>set existing_files.
        os_path_isfile fs (os_path_join dst_path (filename2osformat f))
        \<and> \<not> isl (get_src_sha1sum e src_path f) \<and> \<not> isl (get_src_file_size e src_path f))"
    by blast
  then have "\<not> (\<exists>bad. verify e fs src_path dst_path existing_files = Inr bad)"
    using verify_Inr_iff [of e fs src_path dst_path existing_files] by blast
  then show "\<exists>x. verify e fs src_path dst_path existing_files = Inl x"
    by (cases "verify e fs src_path dst_path existing_files") auto
qed

theorem verify_returns_faulty_subset_witness:
  "os_path_isfile demo_fs (os_path_join ''/bk'' (filename2osformat ''dirA/f1''))
   \<and> os_path_isfile demo_fs (os_path_join ''/bk'' (filename2osformat ''f2''))
   \<and> src_sha1 demo_phone (linux_path_build ''/sdcard/bk'' ''f2'') = Inr ''d2''
   \<and> src_file_size demo_phone (linux_path_build ''/sdcard/bk'' ''f2'') = Inr 50
   \<and> src_sha1 demo_phone (linux_path_build ''/sdcard/bk'' ''dirA/f1'') = Inr ''d1''
   \<and> src_file_size demo_phone (linux_path_build ''/sdcard/bk'' ''dirA/f1'') = Inr 100
   \<and> verify demo_phone demo_fs ''/sdcard/bk'' ''/bk'' [''dirA/f1'', ''f2''] = Inr [''f2'']
   \<and> src_sha1 (demo_phone\<lparr>src_sha1 := (\<lambda>p. Inl (ValueError p))\<rparr>)
         (linux_path_build ''/sdcard/bk'' ''f2'') = Inl (ValueError ''/sdcard/bk/f2'')
   \<and> (\<exists>x. verify (demo_phone\<lparr>src_sha1 := (\<lambda>p. Inl (ValueError p))\<rparr>) demo_fs
              ''/sdcard/bk'' ''/bk'' [''dirA/f1'', ''f2''] = Inl x)"
proof -
  let ?files = "[''dirA/f1'', ''f2'']"
  let ?quote = "demo_phone\<lparr>src_sha1 := (\<lambda>p. Inl (ValueError p))\<rparr>"
  have files: "os_path_isfile demo_fs (os_path_join ''/bk'' (filename2osformat ''dirA/f1''))"
    "os_path_isfile demo_fs (os_path_join ''/bk'' (filename2osformat ''f2''))"
    by (simp_all add: demo_fs_def os_path_isfile_def os_path_join_def filename2osformat_id)
  have answers:
    "src_sha1 demo_phone (linux_path_build ''/sdcard/bk'' ''f2'') = Inr ''d2''"
    "src_file_size demo_phone (linux_path_build ''/sdcard/bk'' ''f2'') = Inr 50"
    "src_sha1 demo_phone (linux_path_build ''/sdcard/bk'' ''dirA/f1'') = Inr ''d1''"
    "src_file_size demo_phone (linux_path_build ''/sdcard/bk'' ''dirA/f1'') = Inr 100"
    by (simp_all add: demo_phone_def linux_path_build_def)
  have nodes:
    "demo_fs (os_path_join ''/bk'' (filename2osformat ''dirA/f1'')) = Some (File 100 ''d1'')"
    "demo_fs (os_path_join ''/bk'' (filename2osformat ''f2'')) = Some (File 50 ''xx'')"
    by (simp_all add: demo_fs_def os_path_join_def filename2osformat_id)
  have h: "\<forall>f\<in>set ?files.
              os_path_isfile demo_fs (os_path_join ''/bk'' (filename2osformat f))
              \<and> (\<exists>h. src_sha1 demo_phone (linux_path_build ''/sdcard/bk'' f) = Inr h)
              \<and> (\<exists>n. src_file_size demo_phone (linux_path_build ''/sdcard/bk'' f) = Inr n)"
    using files answers by simp
  obtain faulty where v: "verify demo_phone demo_fs ''/sdcard/bk'' ''/bk'' ?files = Inr faulty"
    and o: "faulty = filter (\<lambda>f. f \<in> set faulty) ?files"
    and s: "set faulty =
                   {f \<in> set ?files.
                      \<exists>n h. demo_fs (os_path_join ''/bk'' (filename2osformat f)) = Some (File n h)
                        \<and> (src_sha1 demo_phone (linux_path_build ''/sdcard/bk'' f) \<noteq> Inr h
                             \<or> src_file_size demo_phone (linux_path_build ''/sdcard/bk'' f) \<noteq> Inr n)}"
    using verify_returns_faulty_subset [where existing_files = ?files
        and fs = demo_fs and dst_path = "''/bk''" and e = demo_phone and src_path = "''/sdcard/bk''",
        THEN conjunct1, THEN mp, OF h]
    by blast
  have "''f2'' \<in> set faulty" unfolding s by (simp add: nodes answers)
  moreover have "''dirA/f1'' \<notin> set faulty" unfolding s by (simp add: nodes answers)
  ultimately have "filter (\<lambda>f. f \<in> set faulty) ?files = [''f2'']" by simp
  with o have "faulty = [''f2'']" by simp
  with v have 1: "verify demo_phone demo_fs ''/sdcard/bk'' ''/bk'' ?files = Inr [''f2'']" by simp
  have q: "src_sha1 ?quote (linux_path_build ''/sdcard/bk'' ''f2'') = Inl (ValueError ''/sdcard/bk/f2'')"
    by (simp add: linux_path_build_def)
  have "\<exists>f\<in>set ?files.
              \<not> os_path_isfile demo_fs (os_path_join ''/bk'' (filename2osformat f))
              \<or> (\<exists>x. src_sha1 ?quote (linux_path_build ''/sdcard/bk'' f) = Inl x)
              \<or> (\<exists>x. src_file_size ?quote (linux_path_build ''/sdcard/bk'' f) = Inl x)"
    by auto
  then have 2: "\<exists>x. verify ?quote demo_fs ''/sdcard/bk'' ''/bk'' ?files = Inl x"
    by (rule verify_returns_faulty_subset [where existing_files = ?files
        and fs = demo_fs and dst_path = "''/bk''" and e = ?quote and src_path = "''/sdcard/bk''",
        THEN conjunct2, THEN mp])
  from files answers 1 q 2 show ?thesis by simp
qed

section \<open>Properties of the puller\<close>

lemma pull_loop_step:
  "pull_loop e src_path dst_path (f # rest) failed_files w =
     (case pull_loop e src_path dst_path [f] failed_files w of
        (Inl x, w1) \<Rightarrow> (Inl x, w1)
      | (Inr failed1, w1) \<Rightarrow> pull_loop e src_path dst_path rest failed1 w1)"
  by (simp split: prod.splits sum.splits)

lemma pull_file_cases:
  fixes e :: env and w :: world
  defines "p \<equiv> (\<lambda>dst_path f. os_path_join dst_path (filename2osformat f))"
  defines "pulled \<equiv> (\<lambda>src_path dst_path f.
                   adb_pull e (linux_path_build src_path f)
                     (os_path_dirname (p dst_path f)) (w_fs w))"
  defines "w1 \<equiv> (\<lambda>src_path dst_path f.
                   \<lparr>w_fs = snd (pulled src_path dst_path f),
                    w_pulls = w_pulls w
                      @ [(linux_path_build src_path f, os_path_dirname (p dst_path f))]\<rparr>)"
  shows "pull_file e src_path dst_path f w =
     (case fst (pulled src_path dst_path f) of
        Inl x \<Rightarrow> (Inl x, w1 src_path dst_path f)
      | Inr u \<Rightarrow>
     (case w_fs (w1 src_path dst_path f) (p dst_path f) of
        None \<Rightarrow> (Inr not_pulled, w1 src_path dst_path f)
      | Some Dir \<Rightarrow> (Inl (TypeError_raise_of_str (p dst_path f)), w1 src_path dst_path f)
      | Some (File n h) \<Rightarrow>
          (case src_file_size e (linux_path_build src_path f) of
             Inl x \<Rightarrow> (Inl x, w1 src_path dst_path f)
           | Inr src_size \<Rightarrow>
               if src_size \<noteq> n then (Inr wrong_size, w1 src_path dst_path f)
               else (case src_sha1 e (linux_path_build src_path f) of
                       Inl x \<Rightarrow> (Inl x, w1 src_path dst_path f)
                     | Inr src_hash \<Rightarrow>
                         if src_hash \<noteq> h then (Inr wrong_hash, w1 src_path dst_path f)
                         else (Inr success, w1 src_path dst_path f)))))"
  unfolding pull_file_def Let_def p_def w1_def pulled_def
  by (simp add: os_path_isfile_def os_path_exists_def os_path_getsize_def get_dst_sha1sum_def
        sha1sum_def get_src_file_size_def get_src_sha1sum_def
      split: option.splits node.splits sum.splits)

lemma pull_file_pulls:
  "pull_file e src_path dst_path f w = (r, w1) \<Longrightarrow>
     w_pulls w1 = w_pulls w @ [(linux_path_build src_path f,
                                os_path_dirname (os_path_join dst_path (filename2osformat f)))]"
  by (auto simp: pull_file_def Let_def split: if_splits sum.splits)

lemma pull_loop_attempts_each:
  "pull_loop e src_path dst_path files failed_files w = (Inr failed1, w1) \<Longrightarrow>
     w_pulls w1 = w_pulls w @ map (\<lambda>f. (linux_path_build src_path f,
                        os_path_dirname (os_path_join dst_path (filename2osformat f)))) files
   \<and> (\<exists>extra. failed1 = failed_files @ extra \<and> set extra \<subseteq> set files)"
proof (induction files arbitrary: failed_files w)
  case Nil
  then show ?case by simp
next
  case (Cons f rest)
  obtain r w2 where pf: "pull_file e src_path dst_path f w = (r, w2)"
    by (cases "pull_file e src_path dst_path f w")
  note pulls2 = pull_file_pulls [OF pf]
  from Cons.prems pf obtain st where r: "r = Inr st"
    by (cases r) auto
  show ?case
  proof (cases "st = success")
    case True
    with Cons.prems pf r have "pull_loop e src_path dst_path rest failed_files w2 = (Inr failed1, w1)"
      by simp
    from Cons.IH [OF this] pulls2 show ?thesis by auto
  next
    case False
    show ?thesis
    proof (cases "st = not_pulled")
      case True
      with False Cons.prems pf r
      have "pull_loop e src_path dst_path rest (failed_files @ [f]) w2 = (Inr failed1, w1)"
        by simp
      from Cons.IH [OF this] pulls2 show ?thesis by auto
    next
      case np: False
      obtain d fs2 where del: "delete_files dst_path [f] (w_fs w2) = (d, fs2)"
        by (cases "delete_files dst_path [f] (w_fs w2)")
      from False np Cons.prems pf r del obtain u where d: "d = Inr u"
        by (cases d) auto
      with False np Cons.prems pf r del
      have "pull_loop e src_path dst_path rest (failed_files @ [f]) (w2\<lparr>w_fs := fs2\<rparr>)
              = (Inr failed1, w1)"
        by simp
      from Cons.IH [OF this] pulls2 show ?thesis by auto
    qed
  qed
qed

lemma pull_missing_files_answers:
  assumes "\<forall>f\<in>set missing_files. \<exists>n. src_file_size e (linux_path_build src_path f) = Inr n"
  shows "pull_missing_files e src_path dst_path missing_files w
           = pull_loop e src_path dst_path missing_files [] w"
proof (cases "missing_files = []")
  case True
  then show ?thesis by (simp add: pull_missing_files_def)
next
  case False
  from assms have "\<forall>f\<in>set missing_files. \<not> isl (get_src_file_size e src_path f)"
    by (auto simp: get_src_file_size_def)
  from dict_comprehension_answers [OF this] False show ?thesis
    by (simp add: pull_missing_files_def)
qed

lemma pull_missing_files_raises:
  assumes "f \<in> set missing_files" and "src_file_size e (linux_path_build src_path f) = Inl x"
  shows "\<exists>y. pull_missing_files e src_path dst_path missing_files w = (Inl y, w)"
proof -
  from assms have "get_src_file_size e src_path f = Inl x" by (simp add: get_src_file_size_def)
  from dict_comprehension_Inl [of f missing_files "\<lambda>f. get_src_file_size e src_path f" x,
      OF assms(1) this] assms(1)
  show ?thesis by (auto simp: pull_missing_files_def)
qed

text \<open>
  Claim C6. One turn of the loop of lines 313--322, for a file \<open>f\<close> followed by any
  files \<open>rest\<close>. Let \<open>w1\<close> be the world after the \<^verbatim>\<open>adb pull\<close> of \<open>f\<close>. If the
  command raises, the run ends with that exception. Otherwise: if nothing exists at the
  file's local path, the outcome is \<open>not_pulled\<close>, nothing is deleted, \<open>f\<close> is appended
  to \<^verbatim>\<open>failed_files\<close> and the loop goes on with \<open>rest\<close>. If a regular file exists there
  and the device answers a size that differs from its size, the outcome is
  \<open>wrong_size\<close>; if the sizes agree and the device answers a digest that differs, it is
  \<open>wrong_hash\<close>; in both cases the local file is deleted, \<open>f\<close> is appended to
  \<^verbatim>\<open>failed_files\<close> and the loop goes on with \<open>rest\<close>. If size and digest agree, the
  outcome is \<open>success\<close>, the file is kept, \<^verbatim>\<open>failed_files\<close> is unchanged and the loop
  goes on with \<open>rest\<close>. If a directory exists at the path, line 157 raises, and a size
  or digest query that raises ends the run with its exception. On the empty list the
  loop returns \<^verbatim>\<open>failed_files\<close>. Hence a loop that returns has pulled every file once,
  in order, and \<^verbatim>\<open>failed_files\<close> has grown by files of the list only. Before the loop,
  lines 307--308 ask the device for the size of every missing file: when it answers them
  all, the pull phase is the loop; when a query raises, the phase raises with nothing
  pulled.
\<close>

theorem pull_outcome_classified:
  fixes e :: env and w :: world and src_path dst_path f :: string
    and rest failed_files :: "string list"
  defines "p \<equiv> os_path_join dst_path (filename2osformat f)"
  defines "remote \<equiv> linux_path_build src_path f"
  defines "pulled \<equiv> adb_pull e remote (os_path_dirname p) (w_fs w)"
  defines "w1 \<equiv> \<lparr>w_fs = snd pulled, w_pulls = w_pulls w @ [(remote, os_path_dirname p)]\<rparr>"
  defines "deleted \<equiv> w1\<lparr>w_fs := (w_fs w1)(p := None)\<rparr>"
  defines "turn \<equiv> pull_loop e src_path dst_path (f # rest) failed_files w"
  shows "pull_loop e src_path dst_path [] failed_files w = (Inr failed_files, w)
       \<and> (\<forall>x. fst pulled = Inl x \<longrightarrow>
            pull_file e src_path dst_path f w = (Inl x, w1) \<and> turn = (Inl x, w1))
       \<and> (fst pulled = Inr () \<and> w_fs w1 p = None \<longrightarrow>
            pull_file e src_path dst_path f w = (Inr not_pulled, w1)
          \<and> turn = pull_loop e src_path dst_path rest (failed_files @ [f]) w1)
       \<and> (fst pulled = Inr () \<and> w_fs w1 p = Some Dir \<longrightarrow>
            pull_file e src_path dst_path f w = (Inl (TypeError_raise_of_str p), w1)
          \<and> turn = (Inl (TypeError_raise_of_str p), w1))
       \<and> (\<forall>n h x. fst pulled = Inr () \<and> w_fs w1 p = Some (File n h)
                 \<and> src_file_size e remote = Inl x \<longrightarrow>
            pull_file e src_path dst_path f w = (Inl x, w1) \<and> turn = (Inl x, w1))
       \<and> (\<forall>n h s. fst pulled = Inr () \<and> w_fs w1 p = Some (File n h)
                 \<and> src_file_size e remote = Inr s \<and> s \<noteq> n \<longrightarrow>
            pull_file e src_path dst_path f w = (Inr wrong_size, w1)
          \<and> turn = pull_loop e src_path dst_path rest (failed_files @ [f]) deleted)
       \<and> (\<forall>n h x. fst pulled = Inr () \<and> w_fs w1 p = Some (File n h)
                 \<and> src_file_size e remote = Inr n \<and> src_sha1 e remote = Inl x \<longrightarrow>
            pull_file e src_path dst_path f w = (Inl x, w1) \<and> turn = (Inl x, w1))
       \<and> (\<forall>n h d. fst pulled = Inr () \<and> w_fs w1 p = Some (File n h)
                 \<and> src_file_size e remote = Inr n \<and> src_sha1 e remote = Inr d \<and> d \<noteq> h \<longrightarrow>
            pull_file e src_path dst_path f w = (Inr wrong_hash, w1)
          \<and> turn = pull_loop e src_path dst_path rest (failed_files @ [f]) deleted)
       \<and> (\<forall>n h. fst pulled = Inr () \<and> w_fs w1 p = Some (File n h)
                 \<and> src_file_size e remote = Inr n \<and> src_sha1 e remote = Inr h \<longrightarrow>
            pull_file e src_path dst_path f w = (Inr success, w1)
          \<and> turn = pull_loop e src_path dst_path rest failed_files w1)
       \<and> (\<forall>failed1 w2. pull_loop e src_path dst_path files failed_files w = (Inr failed1, w2) \<longrightarrow>
            w_pulls w2 = w_pulls w @ map (\<lambda>f. (linux_path_build src_path f,
                             os_path_dirname (os_path_join dst_path (filename2osformat f)))) files
          \<and> (\<exists>extra. failed1 = failed_files @ extra \<and> set extra \<subseteq> set files))
       \<and> ((\<forall>f\<in>set files. \<exists>n. src_file_size e (linux_path_build src_path f) = Inr n) \<longrightarrow>
            pull_missing_files e src_path dst_path files w
              = pull_loop e src_path dst_path files [] w)
       \<and> ((\<exists>f\<in>set files. \<exists>x. src_file_size e (linux_path_build src_path f) = Inl x) \<longrightarrow>
            (\<exists>x. pull_missing_files e src_path dst_path files w = (Inl x, w)))"
proof -
  have steps: "pull_loop e src_path dst_path [] failed_files w = (Inr failed_files, w)
       \<and> (\<forall>x. fst pulled = Inl x \<longrightarrow>
            pull_file e src_path dst_path f w = (Inl x, w1) \<and> turn = (Inl x, w1))
       \<and> (fst pulled = Inr () \<and> w_fs w1 p = None \<longrightarrow>
            pull_file e src_path dst_path f w = (Inr not_pulled, w1)
          \<and> turn = pull_loop e src_path dst_path rest (failed_files @ [f]) w1)
       \<and> (fst pulled = Inr () \<and> w_fs w1 p = Some Dir \<longrightarrow>
            pull_file e src_path dst_path f w = (Inl (TypeError_raise_of_str p), w1)
          \<and> turn = (Inl (TypeError_raise_of_str p), w1))
       \<and> (\<forall>n h x. fst pulled = Inr () \<and> w_fs w1 p = Some (File n h)
                 \<and> src_file_size e remote = Inl x \<longrightarrow>
            pull_file e src_path dst_path f w = (Inl x, w1) \<and> turn = (Inl x, w1))
       \<and> (\<forall>n h s. fst pulled = Inr () \<and> w_fs w1 p = Some (File n h)
                 \<and> src_file_size e remote = Inr s \<and> s \<noteq> n \<longrightarrow>
            pull_file e src_path dst_path f w = (Inr wrong_size, w1)
          \<and> turn = pull_loop e src_path dst_path rest (failed_files @ [f]) deleted)
       \<and> (\<forall>n h x. fst pulled = Inr () \<and> w_fs w1 p = Some (File n h)
                 \<and> src_file_size e remote = Inr n \<and> src_sha1 e remote = Inl x \<longrightarrow>
            pull_file e src_path dst_path f w = (Inl x, w1) \<and> turn = (Inl x, w1))
       \<and> (\<forall>n h d. fst pulled = Inr () \<and> w_fs w1 p = Some (File n h)
                 \<and> src_file_size e remote = Inr n \<and> src_sha1 e remote = Inr d \<and> d \<noteq> h \<longrightarrow>
            pull_file e src_path dst_path f w = (Inr wrong_hash, w1)
          \<and> turn = pull_loop e src_path dst_path rest (failed_files @ [f]) deleted)
       \<and> (\<forall>n h. fst pulled = Inr () \<and> w_fs w1 p = Some (File n h)
                 \<and> src_file_size e remote = Inr n \<and> src_sha1 e remote = Inr h \<longrightarrow>
            pull_file e src_path dst_path f w = (Inr success, w1)
          \<and> turn = pull_loop e src_path dst_path rest failed_files w1)"
    unfolding p_def remote_def pulled_def w1_def deleted_def turn_def
    by (intro conjI impI allI) (simp_all add: pull_file_cases os_remove_def)
  have whole: "\<forall>failed1 w2. pull_loop e src_path dst_path files failed_files w = (Inr failed1, w2) \<longrightarrow>
            w_pulls w2 = w_pulls w @ map (\<lambda>f. (linux_path_build src_path f,
                             os_path_dirname (os_path_join dst_path (filename2osformat f)))) files
          \<and> (\<exists>extra. failed1 = failed_files @ extra \<and> set extra \<subseteq> set files)"
    using pull_loop_attempts_each by blast
  have phase: "(\<forall>f\<in>set files. \<exists>n. src_file_size e (linux_path_build src_path f) = Inr n) \<longrightarrow>
            pull_missing_files e src_path dst_path files w
              = pull_loop e src_path dst_path files [] w"
    using pull_missing_files_answers by blast
  have raises: "(\<exists>f\<in>set files. \<exists>x. src_file_size e (linux_path_build src_path f) = Inl x) \<longrightarrow>
            (\<exists>x. pull_missing_files e src_path dst_path files w = (Inl x, w))"
    using pull_missing_files_raises by blast
  from steps whole phase raises show ?thesis
    by (elim conjE) (intro conjI; assumption)
qed

lemma demo_paths:
  "os_path_join ''/bk'' (filename2osformat ''f2'') = ''/bk/f2''"
  "os_path_dirname ''/bk/f2'' = ''/bk''"
  "os_path_basename ''/sdcard/bk/f2'' = ''f2''"
  "linux_path_build ''/sdcard/bk'' ''f2'' = ''/sdcard/bk/f2''"
  "os_path_join ''/bk'' ''f2'' = ''/bk/f2''"
  "os_path_join ''/bk'' (filename2osformat ''dirA/f1'') = ''/bk/dirA/f1''"
  "os_path_dirname ''/bk/dirA/f1'' = ''/bk/dirA''"
  "os_path_basename ''/sdcard/bk/dirA/f1'' = ''f1''"
  "linux_path_build ''/sdcard/bk'' ''dirA/f1'' = ''/sdcard/bk/dirA/f1''"
  "os_path_join ''/bk/dirA'' ''f1'' = ''/bk/dirA/f1''"
  by (simp_all add: os_path_join_def filename2osformat_id os_path_dirname_def
        os_path_basename_def os_path_split_def rstrip_slash_def linux_path_build_def)

lemma demo_phone_device:
  "src_file_size demo_phone ''/sdcard/bk/f2'' = Inr 50"
  "src_sha1 demo_phone ''/sdcard/bk/f2'' = Inr ''d2''"
  "src_file_size demo_phone ''/sdcard/bk/dirA/f1'' = Inr 100"
  "src_sha1 demo_phone ''/sdcard/bk/dirA/f1'' = Inr ''d1''"
  "adb_pull demo_phone src dir fs
     = (Inr (), fs(os_path_join dir (os_path_basename src) \<mapsto> File 50 ''d2''))"
  by (simp_all add: demo_phone_def)

theorem pull_outcome_classified_witness:
  "pull_loop demo_phone ''/sdcard/bk'' ''/bk'' [''dirA/f1'', ''f2''] [] demo_pc
     = (Inr [''dirA/f1''],
        \<lparr>w_fs = demo_fs(''/bk/dirA/f1'' := None, ''/bk/f2'' \<mapsto> File 50 ''d2''),
         w_pulls = [(''/sdcard/bk/dirA/f1'', ''/bk/dirA''), (''/sdcard/bk/f2'', ''/bk'')]\<rparr>)
   \<and> pull_missing_files demo_phone ''/sdcard/bk'' ''/bk'' [''dirA/f1'', ''f2''] demo_pc
     = (Inr [''dirA/f1''],
        \<lparr>w_fs = demo_fs(''/bk/dirA/f1'' := None, ''/bk/f2'' \<mapsto> File 50 ''d2''),
         w_pulls = [(''/sdcard/bk/dirA/f1'', ''/bk/dirA''), (''/sdcard/bk/f2'', ''/bk'')]\<rparr>)
   \<and> (\<exists>x. pull_missing_files (demo_phone\<lparr>src_file_size := (\<lambda>p. Inl (ValueError p))\<rparr>)
               ''/sdcard/bk'' ''/bk'' [''dirA/f1'', ''f2''] demo_pc = (Inl x, demo_pc))"
proof -
  let ?w1 = "\<lparr>w_fs = demo_fs(''/bk/dirA/f1'' := None),
              w_pulls = [(''/sdcard/bk/dirA/f1'', ''/bk/dirA'')]\<rparr>"
  let ?w2 = "\<lparr>w_fs = demo_fs(''/bk/dirA/f1'' := None, ''/bk/f2'' \<mapsto> File 50 ''d2''),
              w_pulls = [(''/sdcard/bk/dirA/f1'', ''/bk/dirA''), (''/sdcard/bk/f2'', ''/bk'')]\<rparr>"
  let ?quote = "demo_phone\<lparr>src_file_size := (\<lambda>p. Inl (ValueError p))\<rparr>"
  have turn1: "pull_loop demo_phone ''/sdcard/bk'' ''/bk'' [''dirA/f1'', ''f2''] [] demo_pc
                 = pull_loop demo_phone ''/sdcard/bk'' ''/bk'' [''f2''] [''dirA/f1''] ?w1"
    using pull_outcome_classified [where e = demo_phone and w = demo_pc
        and src_path = "''/sdcard/bk''" and dst_path = "''/bk''" and f = "''dirA/f1''"
        and rest = "[''f2'']" and failed_files = "[]",
        THEN conjunct2, THEN conjunct2, THEN conjunct2, THEN conjunct2, THEN conjunct2, THEN conjunct1, rule_format, of 50 "''d2''" 100]
    by (simp add: demo_paths demo_phone_device demo_pc_def del: pull_loop.simps)
  have turn2: "pull_loop demo_phone ''/sdcard/bk'' ''/bk'' [''f2''] [''dirA/f1''] ?w1
                 = pull_loop demo_phone ''/sdcard/bk'' ''/bk'' [] [''dirA/f1''] ?w2"
    using pull_outcome_classified [where e = demo_phone and w = ?w1
        and src_path = "''/sdcard/bk''" and dst_path = "''/bk''" and f = "''f2''"
        and rest = "[]" and failed_files = "[''dirA/f1'']",
        THEN conjunct2, THEN conjunct2, THEN conjunct2, THEN conjunct2, THEN conjunct2, THEN conjunct2, THEN conjunct2, THEN conjunct2, THEN conjunct1, rule_format, of 50 "''d2''"]
    by (simp add: demo_paths demo_phone_device del: pull_loop.simps)
  have stop: "pull_loop demo_phone ''/sdcard/bk'' ''/bk'' [] [''dirA/f1''] ?w2
                 = (Inr [''dirA/f1''], ?w2)"
    by (rule pull_outcome_classified [where e = demo_phone and w = ?w2
        and src_path = "''/sdcard/bk''" and dst_path = "''/bk''"
        and failed_files = "[''dirA/f1'']", THEN conjunct1])
  have loop: "pull_loop demo_phone ''/sdcard/bk'' ''/bk'' [''dirA/f1'', ''f2''] [] demo_pc
                = (Inr [''dirA/f1''], ?w2)"
    by (simp only: turn1 turn2 stop)
  have phase: "pull_missing_files demo_phone ''/sdcard/bk'' ''/bk'' [''dirA/f1'', ''f2''] demo_pc
                 = pull_loop demo_phone ''/sdcard/bk'' ''/bk'' [''dirA/f1'', ''f2''] [] demo_pc"
    by (rule pull_outcome_classified [where e = demo_phone and w = demo_pc
        and src_path = "''/sdcard/bk''" and dst_path = "''/bk''"
        and files = "[''dirA/f1'', ''f2'']",
        THEN conjunct2, THEN conjunct2, THEN conjunct2, THEN conjunct2, THEN conjunct2, THEN conjunct2, THEN conjunct2, THEN conjunct2, THEN conjunct2, THEN conjunct2, THEN conjunct1, THEN mp])
       (simp add: demo_paths demo_phone_device)
  have raises: "\<exists>x. pull_missing_files ?quote ''/sdcard/bk'' ''/bk'' [''dirA/f1'', ''f2''] demo_pc
                  = (Inl x, demo_pc)"
    by (rule pull_outcome_classified [where e = ?quote and w = demo_pc
        and src_path = "''/sdcard/bk''" and dst_path = "''/bk''"
        and files = "[''dirA/f1'', ''f2'']",
        THEN conjunct2, THEN conjunct2, THEN conjunct2, THEN conjunct2, THEN conjunct2, THEN conjunct2, THEN conjunct2, THEN conjunct2, THEN conjunct2, THEN conjunct2, THEN conjunct2, THEN mp])
       auto
  from loop phase raises show ?thesis by simp
qed
section \<open>Properties of the single-file mode\<close>

text \<open>
  Neither listing of the environment is read by the phases that follow the
  reconciliation: the puller and the verifier only ask for sizes and digests.
\<close>

lemma get_src_listing_irrelevant:
  "get_src_file_size (e\<lparr>src_listing := l1, dst_listing := l2\<rparr>) = get_src_file_size e"
  "get_src_sha1sum (e\<lparr>src_listing := l1, dst_listing := l2\<rparr>) = get_src_sha1sum e"
  by (simp_all add: fun_eq_iff get_src_file_size_def get_src_sha1sum_def)

lemma pull_file_listing_irrelevant:
  "pull_file (e\<lparr>src_listing := l1, dst_listing := l2\<rparr>) src_path dst_path f w
     = pull_file e src_path dst_path f w"
  by (simp add: pull_file_def get_src_listing_irrelevant Let_def
        cong: sum.case_cong if_cong)

lemma pull_loop_listing_irrelevant:
  "pull_loop (e\<lparr>src_listing := l1, dst_listing := l2\<rparr>) src_path dst_path files failed_files w
     = pull_loop e src_path dst_path files failed_files w"
  by (induction files arbitrary: failed_files w)
     (simp_all add: pull_file_listing_irrelevant split: prod.splits sum.splits)

lemma verify_listing_irrelevant:
  "verify (e\<lparr>src_listing := l1, dst_listing := l2\<rparr>) fs src_path dst_path existing_files
     = verify e fs src_path dst_path existing_files"
  by (simp add: verify_def get_src_listing_irrelevant Let_def
        cong: sum.case_cong if_cong)

lemma verify_and_repair_listing_irrelevant:
  "verify_and_repair (e\<lparr>src_listing := l1, dst_listing := l2\<rparr>) a src_path dst_path
       missing_files existing_files fs
     = verify_and_repair e a src_path dst_path missing_files existing_files fs"
  by (simp add: verify_and_repair_def verify_listing_irrelevant Let_def
        cong: sum.case_cong if_cong)

lemma pull_missing_files_listing_irrelevant:
  "pull_missing_files (e\<lparr>src_listing := l1, dst_listing := l2\<rparr>) src_path dst_path
       missing_files w
     = pull_missing_files e src_path dst_path missing_files w"
  by (simp add: pull_missing_files_def pull_loop_listing_irrelevant get_src_listing_irrelevant
        cong: sum.case_cong if_cong)

lemma pull_and_report_listing_irrelevant:
  "pull_and_report (e\<lparr>src_listing := l1, dst_listing := l2\<rparr>) a src_path dst_path
       missing_files existing_files bad_files w
     = pull_and_report e a src_path dst_path missing_files existing_files bad_files w"
  by (simp add: pull_and_report_def pull_missing_files_listing_irrelevant
        override_step_def Let_def cong: sum.case_cong prod.case_cong if_cong)

lemma backup_listing_irrelevant:
  "backup (e\<lparr>src_listing := l1, dst_listing := l2\<rparr>) a src_path dst_path
       missing_files existing_files missing_dirs w
     = backup e a src_path dst_path missing_files existing_files missing_dirs w"
  by (simp add: backup_def verify_and_repair_listing_irrelevant
        pull_and_report_listing_irrelevant Let_def
        cong: sum.case_cong prod.case_cong if_cong)

text \<open>
  Claim C8. When the source path is a remote file (lines 258--271), the run compares
  exactly one entry, the file's name under the destination directory: a local regular
  file there makes it the only existing file, a local directory there raises the
  \<open>TypeError\<close> of line 268, and nothing there makes it the only missing file; the
  lists of directories are empty. When the preflight checks pass (the adb binary is a
  file, the destination a directory, a device is listed) and the device says the source
  is a file, the run is the common phases on that one entry, under the directory of the
  source, or the \<open>TypeError\<close>. No directory listing of either side is consulted: the
  result of \<open>main\<close> does not depend on them.
\<close>

theorem single_file_mode_one_entry:
  fixes e :: env and a :: args and w :: world
  defines "filename \<equiv> os_path_basename (args_src_path a)"
  defines "local_file_path \<equiv> os_path_join (args_dst_path a) (filename2osformat filename)"
  defines "adb_path \<equiv> (case args_adb_path a of None \<Rightarrow> ''adb''
                          | Some p \<Rightarrow> if p \<noteq> [] then p else ''adb'')"
  defines "preflight \<equiv> os_path_isfile (w_fs w) adb_path \<and> os_path_isdir (w_fs w) (args_dst_path a)
                          \<and> devices_listed e = Inr True
                          \<and> src_path_type e (args_src_path a) = Inr ''file''"
  shows "(os_path_isfile (w_fs w) local_file_path \<longrightarrow>
            single_file_mode (w_fs w) (args_src_path a) (args_dst_path a)
              = Inr (os_path_dirname (args_src_path a), [], [filename], [], []))
       \<and> (os_path_isdir (w_fs w) local_file_path \<longrightarrow>
            single_file_mode (w_fs w) (args_src_path a) (args_dst_path a)
              = Inl (TypeError_should_be_file local_file_path))
       \<and> (\<not> os_path_exists (w_fs w) local_file_path \<longrightarrow>
            single_file_mode (w_fs w) (args_src_path a) (args_dst_path a)
              = Inr (os_path_dirname (args_src_path a), [filename], [], [], []))
       \<and> (preflight \<and> os_path_isfile (w_fs w) local_file_path \<longrightarrow>
            main e a w = backup e a (os_path_dirname (args_src_path a)) (args_dst_path a)
                           [] [filename] [] w)
       \<and> (preflight \<and> os_path_isdir (w_fs w) local_file_path \<longrightarrow>
            main e a w = (Inl (TypeError_should_be_file local_file_path), w))
       \<and> (preflight \<and> \<not> os_path_exists (w_fs w) local_file_path \<longrightarrow>
            main e a w = backup e a (os_path_dirname (args_src_path a)) (args_dst_path a)
                           [filename] [] [] w)
       \<and> (src_path_type e (args_src_path a) = Inr ''file'' \<longrightarrow>
            main (e\<lparr>src_listing := l1, dst_listing := l2\<rparr>) a w = main e a w)"
proof (intro conjI impI)
  have file_case: "single_file_mode (w_fs w) (args_src_path a) (args_dst_path a)
          = Inr (os_path_dirname (args_src_path a), [], [filename], [], [])"
    if "os_path_isfile (w_fs w) local_file_path"
    using that
    by (auto simp: single_file_mode_def Let_def filename_def local_file_path_def
          os_path_isfile_def os_path_exists_def split: option.splits)
  have dir_case: "single_file_mode (w_fs w) (args_src_path a) (args_dst_path a)
          = Inl (TypeError_should_be_file local_file_path)"
    if "os_path_isdir (w_fs w) local_file_path"
    using that
    by (simp add: single_file_mode_def Let_def filename_def local_file_path_def
          os_path_isfile_def os_path_exists_def os_path_isdir_def)
  have none_case: "single_file_mode (w_fs w) (args_src_path a) (args_dst_path a)
          = Inr (os_path_dirname (args_src_path a), [filename], [], [], [])"
    if "\<not> os_path_exists (w_fs w) local_file_path"
    using that
    by (simp add: single_file_mode_def Let_def filename_def local_file_path_def)
  have run: "main e a w =
            (case single_file_mode (w_fs w) (args_src_path a) (args_dst_path a) of
               Inl x \<Rightarrow> (Inl x, w)
             | Inr (src_path1, missing_files, existing_files, missing_dirs, existing_dirs) \<Rightarrow>
                 backup e a src_path1 (args_dst_path a)
                   missing_files existing_files missing_dirs w)"
    if preflight
    using that by (simp add: main_def Let_def preflight_def adb_path_def)
  show "single_file_mode (w_fs w) (args_src_path a) (args_dst_path a)
          = Inr (os_path_dirname (args_src_path a), [], [filename], [], [])"
    if "os_path_isfile (w_fs w) local_file_path"
    using that by (rule file_case)
  show "single_file_mode (w_fs w) (args_src_path a) (args_dst_path a)
          = Inl (TypeError_should_be_file local_file_path)"
    if "os_path_isdir (w_fs w) local_file_path"
    using that by (rule dir_case)
  show "single_file_mode (w_fs w) (args_src_path a) (args_dst_path a)
          = Inr (os_path_dirname (args_src_path a), [filename], [], [], [])"
    if "\<not> os_path_exists (w_fs w) local_file_path"
    using that by (rule none_case)
  show "main e a w = backup e a (os_path_dirname (args_src_path a)) (args_dst_path a)
                           [] [filename] [] w"
    if "preflight \<and> os_path_isfile (w_fs w) local_file_path"
    using that run file_case by simp
  show "main e a w = (Inl (TypeError_should_be_file local_file_path), w)"
    if "preflight \<and> os_path_isdir (w_fs w) local_file_path"
    using that run dir_case by simp
  show "main e a w = backup e a (os_path_dirname (args_src_path a)) (args_dst_path a)
                           [filename] [] [] w"
    if "preflight \<and> \<not> os_path_exists (w_fs w) local_file_path"
    using that run none_case by simp
  show "main (e\<lparr>src_listing := l1, dst_listing := l2\<rparr>) a w = main e a w"
    if "src_path_type e (args_src_path a) = Inr ''file''"
    using that by (simp add: main_def Let_def backup_listing_irrelevant
          cong: sum.case_cong prod.case_cong if_cong)
qed

lemma demo_file_paths:
  "os_path_basename ''/sdcard/bk/f2'' = ''f2''"
  "os_path_dirname ''/sdcard/bk/f2'' = ''/sdcard/bk''"
  "os_path_join ''/bk'' (filename2osformat ''f2'') = ''/bk/f2''"
  by (simp_all add: os_path_join_def filename2osformat_id os_path_dirname_def
        os_path_basename_def os_path_split_def rstrip_slash_def)

lemma demo_fs_preflight:
  "demo_fs ''/usr/bin/adb'' = Some (File 1 ''adb'')"
  "demo_fs ''/bk'' = Some Dir"
  "demo_fs ''/bk/f2'' = Some (File 50 ''xx'')"
  by (simp_all add: demo_fs_def)

lemma demo_file_run:
  "backup (demo_phone\<lparr>src_path_type := (\<lambda>p. Inr ''file'')\<rparr>)
       (demo_args\<lparr>args_src_path := ''/sdcard/bk/f2''\<rparr>) ''/sdcard/bk'' ''/bk'' [''f2''] [] []
       \<lparr>w_fs = demo_fs(''/bk/f2'' := None), w_pulls = []\<rparr>
     = (Inr (Reported \<lparr>final_missing_files = [''f2''], final_existing_files = [],
                        final_bad_files = None, final_failed_files = []\<rparr>),
        \<lparr>w_fs = demo_fs(''/bk/f2'' \<mapsto> File 50 ''d2''), w_pulls = [(''/sdcard/bk/f2'', ''/bk'')]\<rparr>)"
  by (simp add: backup_def create_all_directories_def demo_args_def pull_and_report_def
        override_step_def pull_missing_files_def get_src_file_size_def pull_file_cases
        demo_paths demo_phone_def)

theorem single_file_mode_one_entry_witness:
  "main (demo_phone\<lparr>src_path_type := (\<lambda>p. Inr ''file'')\<rparr>)
       (demo_args\<lparr>args_src_path := ''/sdcard/bk/f2''\<rparr>)
       \<lparr>w_fs = demo_fs(''/bk/f2'' := None), w_pulls = []\<rparr>
     = (Inr (Reported \<lparr>final_missing_files = [''f2''], final_existing_files = [],
                        final_bad_files = None, final_failed_files = []\<rparr>),
        \<lparr>w_fs = demo_fs(''/bk/f2'' \<mapsto> File 50 ''d2''), w_pulls = [(''/sdcard/bk/f2'', ''/bk'')]\<rparr>)
   \<and> main (demo_phone\<lparr>src_path_type := (\<lambda>p. Inr ''file'')\<rparr>)
       (demo_args\<lparr>args_src_path := ''/sdcard/bk/f2''\<rparr>)
       \<lparr>w_fs = demo_fs(''/bk/f2'' \<mapsto> Dir), w_pulls = []\<rparr>
     = (Inl (TypeError_should_be_file ''/bk/f2''), \<lparr>w_fs = demo_fs(''/bk/f2'' \<mapsto> Dir), w_pulls = []\<rparr>)
   \<and> main (demo_phone\<lparr>src_path_type := (\<lambda>p. Inr ''file'')\<rparr>)
       (demo_args\<lparr>args_src_path := ''/sdcard/bk/f2''\<rparr>) \<lparr>w_fs = demo_fs, w_pulls = []\<rparr>
     = backup (demo_phone\<lparr>src_path_type := (\<lambda>p. Inr ''file'')\<rparr>)
         (demo_args\<lparr>args_src_path := ''/sdcard/bk/f2''\<rparr>) ''/sdcard/bk'' ''/bk'' [] [''f2''] []
         \<lparr>w_fs = demo_fs, w_pulls = []\<rparr>
   \<and> single_file_mode demo_fs ''/sdcard/bk/f2'' ''/bk'' = Inr (''/sdcard/bk'', [], [''f2''], [], [])
   \<and> single_file_mode (demo_fs(''/bk/f2'' \<mapsto> Dir)) ''/sdcard/bk/f2'' ''/bk''
       = Inl (TypeError_should_be_file ''/bk/f2'')
   \<and> single_file_mode (demo_fs(''/bk/f2'' := None)) ''/sdcard/bk/f2'' ''/bk''
       = Inr (''/sdcard/bk'', [''f2''], [], [], [])"
proof -
  let ?e = "demo_phone\<lparr>src_path_type := (\<lambda>p. Inr ''file'')\<rparr>"
  let ?a = "demo_args\<lparr>args_src_path := ''/sdcard/bk/f2''\<rparr>"
  let ?absent = "\<lparr>w_fs = demo_fs(''/bk/f2'' := None), w_pulls = []\<rparr>"
  let ?dir = "\<lparr>w_fs = demo_fs(''/bk/f2'' \<mapsto> Dir), w_pulls = []\<rparr>"
  let ?present = "\<lparr>w_fs = demo_fs, w_pulls = []\<rparr>"
  have a: "args_src_path ?a = ''/sdcard/bk/f2''" "args_dst_path ?a = ''/bk''"
    "args_adb_path ?a = Some ''/usr/bin/adb''"
    by (simp_all add: demo_args_def)
  have e: "devices_listed ?e = Inr True" "src_path_type ?e ''/sdcard/bk/f2'' = Inr ''file''"
    by (simp_all add: demo_phone_def)
  note facts = a e demo_file_paths demo_fs_preflight os_path_isfile_def os_path_isdir_def
    os_path_exists_def
  have 1: "main ?e ?a ?absent = backup ?e ?a ''/sdcard/bk'' ''/bk'' [''f2''] [] [] ?absent"
    using single_file_mode_one_entry [where e = ?e and a = ?a and w = ?absent,
        THEN conjunct2, THEN conjunct2, THEN conjunct2, THEN conjunct2, THEN conjunct2, THEN conjunct1]
    by (simp add: facts)
  have 2: "main ?e ?a ?dir = (Inl (TypeError_should_be_file ''/bk/f2''), ?dir)"
    using single_file_mode_one_entry [where e = ?e and a = ?a and w = ?dir,
        THEN conjunct2, THEN conjunct2, THEN conjunct2, THEN conjunct2, THEN conjunct1]
    by (simp add: facts)
  have 3: "main ?e ?a ?present = backup ?e ?a ''/sdcard/bk'' ''/bk'' [] [''f2''] [] ?present"
    using single_file_mode_one_entry [where e = ?e and a = ?a and w = ?present,
        THEN conjunct2, THEN conjunct2, THEN conjunct2, THEN conjunct1]
    by (simp add: facts)
  have 4: "single_file_mode demo_fs ''/sdcard/bk/f2'' ''/bk'' = Inr (''/sdcard/bk'', [], [''f2''], [], [])"
    using single_file_mode_one_entry [where e = ?e and a = ?a and w = ?present, THEN conjunct1]
    by (simp add: facts)
  have 5: "single_file_mode (demo_fs(''/bk/f2'' \<mapsto> Dir)) ''/sdcard/bk/f2'' ''/bk''
       = Inl (TypeError_should_be_file ''/bk/f2'')"
    using single_file_mode_one_entry [where e = ?e and a = ?a and w = ?dir,
        THEN conjunct2, THEN conjunct1]
    by (simp add: facts)
  have 6: "single_file_mode (demo_fs(''/bk/f2'' := None)) ''/sdcard/bk/f2'' ''/bk''
       = Inr (''/sdcard/bk'', [''f2''], [], [], [])"
    using single_file_mode_one_entry [where e = ?e and a = ?a and w = ?absent,
        THEN conjunct2, THEN conjunct2, THEN conjunct1]
    by (simp add: facts)
  from 1 2 3 4 5 6 show ?thesis by (simp only: demo_file_run simp_thms)
qed

section \<open>Properties of directory creation\<close>

text \<open>
  \<^verbatim>\<open>os.mkdir\<close>, \<^verbatim>\<open>os.makedirs\<close> and the loop of \<^verbatim>\<open>create_all_directories\<close> only
  add directories, each under a directory.
\<close>

lemma only_adds_directories_refl: "only_adds_directories fs fs"
  by (simp add: only_adds_directories_def)

lemma only_adds_directories_keeps:
  "only_adds_directories fs fs' \<Longrightarrow> fs q = Some nd \<Longrightarrow> fs' q = Some nd"
  unfolding only_adds_directories_def by (metis option.distinct(1))

lemma only_adds_directories_trans:
  assumes 1: "only_adds_directories fs fs1" and 2: "only_adds_directories fs1 fs2"
  shows "only_adds_directories fs fs2"
  unfolding only_adds_directories_def
proof
  fix q
  let ?par = "os_path_dirname q = [] \<or> fs2 (os_path_dirname q) = Some Dir"
  from 1 have a: "fs1 q = fs q \<or> (fs q = None \<and> fs1 q = Some Dir
      \<and> (os_path_dirname q = [] \<or> fs1 (os_path_dirname q) = Some Dir))"
    by (simp add: only_adds_directories_def)
  from 2 have b: "fs2 q = fs1 q \<or> (fs1 q = None \<and> fs2 q = Some Dir \<and> ?par)"
    by (simp add: only_adds_directories_def)
  have keep: "fs1 (os_path_dirname q) = Some Dir \<Longrightarrow> fs2 (os_path_dirname q) = Some Dir"
    using only_adds_directories_keeps [OF 2] by blast
  from a b keep show "fs2 q = fs q \<or> (fs q = None \<and> fs2 q = Some Dir \<and> ?par)"
    by auto
qed

lemma os_mkdir_adds: "os_mkdir p fs = (r, fs') \<Longrightarrow> only_adds_directories fs fs'"
  by (auto simp: os_mkdir_def Let_def only_adds_directories_def split: if_splits)

lemma mkdir_exist_ok_adds: "mkdir_exist_ok p fs = (r, fs') \<Longrightarrow> only_adds_directories fs fs'"
  by (auto simp: mkdir_exist_ok_def split: prod.splits sum.splits if_splits dest: os_mkdir_adds)

lemma os_makedirs_adds: "os_makedirs name fs = (r, fs') \<Longrightarrow> only_adds_directories fs fs'"
proof (induction name fs arbitrary: r fs' rule: os_makedirs.induct)
  case (1 name fs)
  let ?head = "fst (makedirs_head_tail name)"
  let ?tail = "snd (makedirs_head_tail name)"
  show ?case
  proof (cases "?head \<noteq> [] \<and> ?tail \<noteq> [] \<and> \<not> os_path_exists fs ?head")
    case False
    with "1.prems" have "mkdir_exist_ok name fs = (r, fs')"
      by (subst (asm) os_makedirs.simps) (auto simp: Let_def)
    then show ?thesis by (rule mkdir_exist_ok_adds)
  next
    case True
    obtain r1 fs1 where rec: "os_makedirs ?head fs = (r1, fs1)" by (cases "os_makedirs ?head fs")
    from "1.IH" [OF refl refl _ rec] True have a1: "only_adds_directories fs fs1" by simp
    from "1.prems" True rec
    have "(r, fs') = (r1, fs1) \<or> (r, fs') = (Inr (), fs1) \<or> mkdir_exist_ok name fs1 = (r, fs')"
      by (subst (asm) os_makedirs.simps) (auto simp: Let_def split: sum.splits if_splits)
    then have "only_adds_directories fs1 fs'"
      by (auto intro: only_adds_directories_refl mkdir_exist_ok_adds)
    with a1 show ?thesis by (rule only_adds_directories_trans)
  qed
qed

lemma create_directories_loop_adds:
  "create_directories_loop path ds fs = (r, fs') \<Longrightarrow> only_adds_directories fs fs'"
proof (induction ds arbitrary: fs)
  case Nil
  then show ?case by (simp add: only_adds_directories_refl)
next
  case (Cons d ds)
  then show ?case
    by (auto simp: Let_def only_adds_directories_refl split: if_splits prod.splits sum.splits
          dest!: os_makedirs_adds intro: only_adds_directories_trans)
qed

lemma mkdir_exist_ok_isdir: "mkdir_exist_ok name fs = (Inr u, fs') \<Longrightarrow> fs' name = Some Dir"
  by (auto simp: mkdir_exist_ok_def os_mkdir_def Let_def os_path_isdir_def
        split: prod.splits sum.splits if_splits)

lemma os_makedirs_isdir:
  assumes "os_makedirs name fs = (Inr u, fs')" and "snd (makedirs_head_tail name) \<noteq> ''.''"
  shows "fs' name = Some Dir"
  using assms
  by (subst (asm) os_makedirs.simps)
     (auto simp: Let_def split: sum.splits if_splits prod.splits dest: mkdir_exist_ok_isdir)

lemma create_directories_loop_isdir:
  "create_directories_loop path ds fs = (Inr u, fs') \<Longrightarrow> d \<in> set ds \<Longrightarrow>
     snd (makedirs_head_tail (os_path_join path (filename2osformat d))) \<noteq> ''.'' \<Longrightarrow>
     fs' (os_path_join path (filename2osformat d)) = Some Dir"
proof (induction ds arbitrary: fs)
  case Nil
  then show ?case by simp
next
  case (Cons d0 ds)
  let ?first = "os_path_join path (filename2osformat d0)"
  show ?case
  proof (cases "os_path_exists fs ?first")
    case True
    with Cons.prems(1) have dir: "fs ?first = Some Dir"
      and rest: "create_directories_loop path ds fs = (Inr u, fs')"
      by (auto simp: Let_def os_path_isdir_def split: if_splits)
    show ?thesis
    proof (cases "d \<in> set ds")
      case True
      then show ?thesis using Cons.IH [OF rest] Cons.prems(3) by simp
    next
      case False
      with Cons.prems(2) have "d = d0" by simp
      with dir create_directories_loop_adds [OF rest] show ?thesis
        by (simp add: only_adds_directories_keeps)
    qed
  next
    case False
    with Cons.prems(1) obtain fs1 where mk: "os_makedirs ?first fs = (Inr (), fs1)"
      and rest: "create_directories_loop path ds fs1 = (Inr u, fs')"
      by (auto simp: Let_def split: prod.splits sum.splits)
    show ?thesis
    proof (cases "d \<in> set ds")
      case True
      then show ?thesis using Cons.IH [OF rest] Cons.prems(3) by simp
    next
      case False
      with Cons.prems(2) have "d = d0" by simp
      with os_makedirs_isdir [OF mk] Cons.prems(3) create_directories_loop_adds [OF rest]
      show ?thesis by (simp add: only_adds_directories_keeps)
    qed
  qed
qed

lemma create_directories_loop_idem:
  "\<forall>d\<in>set ds. fs (os_path_join path (filename2osformat d)) = Some Dir \<Longrightarrow>
     create_directories_loop path ds fs = (Inr (), fs)"
  by (induction ds) (simp_all add: os_path_exists_def os_path_isdir_def)

lemma create_directories_loop_file:
  "d \<in> set ds \<Longrightarrow> fs (os_path_join path (filename2osformat d)) = Some (File n h) \<Longrightarrow>
     \<exists>x fs'. create_directories_loop path ds fs = (Inl x, fs')"
proof (induction ds arbitrary: fs)
  case Nil
  then show ?case by simp
next
  case (Cons d0 ds)
  let ?first = "os_path_join path (filename2osformat d0)"
  let ?mine = "os_path_join path (filename2osformat d)"
  show ?case
  proof (cases "os_path_exists fs ?first")
    case ex: True
    show ?thesis
    proof (cases "os_path_isdir fs ?first")
      case False
      with ex show ?thesis by simp
    next
      case True
      with Cons.prems have "d \<in> set ds" by (auto simp: os_path_isdir_def)
      from Cons.IH [of fs, OF this Cons.prems(2)] ex True show ?thesis by simp
    qed
  next
    case nex: False
    with Cons.prems have in_ds: "d \<in> set ds" by (auto simp: os_path_exists_def)
    obtain r fs1 where mk: "os_makedirs ?first fs = (r, fs1)" by (cases "os_makedirs ?first fs")
    show ?thesis
    proof (cases r)
      case (Inl x)
      with nex mk show ?thesis by simp
    next
      case (Inr u)
      have "fs1 ?mine = Some (File n h)"
        using only_adds_directories_keeps [OF os_makedirs_adds [OF mk] Cons.prems(2)] .
      from Cons.IH [of fs1, OF in_ds this] nex mk Inr show ?thesis by simp
    qed
  qed
qed


lemma create_all_directories_Nil: "create_all_directories path [] fs = (Inr (), fs)"
  by (simp add: create_all_directories_def)

lemma backup_after_directories:
  "create_all_directories dst_path missing_dirs (w_fs w) = (Inr (), fs1) \<Longrightarrow>
     backup e a src_path dst_path missing_files existing_files missing_dirs w
       = backup e a src_path dst_path missing_files existing_files [] (w\<lparr>w_fs := fs1\<rparr>)"
  by (simp add: backup_def create_all_directories_Nil
        cong: prod.case_cong sum.case_cong if_cong)

subsection \<open>Which paths directory creation touches\<close>

lemma rstrip_slash_decomp:
  "\<exists>sl. s = rstrip_slash s @ sl \<and> list_all (\<lambda>c. c = CHR ''/'') sl"
proof -
  have "rev s = takeWhile (\<lambda>c. c = CHR ''/'') (rev s) @ dropWhile (\<lambda>c. c = CHR ''/'') (rev s)"
    by simp
  then have "s = rev (dropWhile (\<lambda>c. c = CHR ''/'') (rev s)) @ rev (takeWhile (\<lambda>c. c = CHR ''/'') (rev s))"
    by (metis rev_append rev_rev_ident)
  moreover have "list_all (\<lambda>c. c = CHR ''/'') (rev (takeWhile (\<lambda>c. c = CHR ''/'') (rev s)))"
    by (simp add: list_all_iff) (meson set_takeWhileD)
  ultimately show ?thesis unfolding rstrip_slash_def by blast
qed

lemma rstrip_slash_last:
  assumes "s \<noteq> []" and "last s = CHR ''/''"
  shows "rstrip_slash s \<noteq> s"
proof
  assume eq: "rstrip_slash s = s"
  from assms obtain c cs where r: "rev s = c # cs" "c = CHR ''/''"
    by (cases "rev s") (auto simp: last_rev [symmetric] hd_rev)
  have "length (rstrip_slash s) = length (dropWhile (\<lambda>c. c = CHR ''/'') (rev s))"
    by (simp add: rstrip_slash_def)
  also have "\<dots> = length (dropWhile (\<lambda>c. c = CHR ''/'') cs)" using r by simp
  also have "\<dots> \<le> length cs" by (rule length_dropWhile_le)
  also have "\<dots> < length s" using r by (metis length_Cons length_rev lessI)
  finally show False using eq by simp
qed

lemma os_path_split_parts:
  obtains h t where "p = h @ t" and "h = [] \<or> last h = CHR ''/''"
    and "os_path_split p
           = (if h \<noteq> [] \<and> \<not> list_all (\<lambda>c. c = CHR ''/'') h then rstrip_slash h else h, t)"
proof -
  define t where "t = rev (takeWhile (\<lambda>c. c \<noteq> CHR ''/'') (rev p))"
  define h where "h = rev (dropWhile (\<lambda>c. c \<noteq> CHR ''/'') (rev p))"
  have 1: "p = h @ t"
    unfolding h_def t_def by (metis rev_append rev_rev_ident takeWhile_dropWhile_id)
  have 2: "h = [] \<or> last h = CHR ''/''"
  proof (cases "dropWhile (\<lambda>c. c \<noteq> CHR ''/'') (rev p)")
    case Nil
    then show ?thesis by (simp add: h_def)
  next
    case (Cons c cs)
    with hd_dropWhile [of "\<lambda>c. c \<noteq> CHR ''/''" "rev p"] have "c = CHR ''/''" by simp
    with Cons show ?thesis by (simp add: h_def)
  qed
  have 3: "os_path_split p
           = (if h \<noteq> [] \<and> \<not> list_all (\<lambda>c. c = CHR ''/'') h then rstrip_slash h else h, t)"
    unfolding os_path_split_def Let_def h_def t_def by (rule refl)
  from 1 2 3 show ?thesis by (rule that)
qed

lemma os_path_split_decomp:
  "\<exists>sfx. p = fst (os_path_split p) @ sfx
     \<and> (fst (os_path_split p) \<noteq> [] \<and> \<not> list_all (\<lambda>c. c = CHR ''/'') (fst (os_path_split p))
          \<longrightarrow> (\<exists>rest. sfx = CHR ''/'' # rest))"
proof -
  obtain h t where p: "p = h @ t" and l: "h = [] \<or> last h = CHR ''/''"
    and s: "os_path_split p
           = (if h \<noteq> [] \<and> \<not> list_all (\<lambda>c. c = CHR ''/'') h then rstrip_slash h else h, t)"
    by (rule os_path_split_parts)
  show ?thesis
  proof (cases "h \<noteq> [] \<and> \<not> list_all (\<lambda>c. c = CHR ''/'') h")
    case False
    with s have "fst (os_path_split p) = h" by simp
    with p False show ?thesis by auto
  next
    case True
    with s have f: "fst (os_path_split p) = rstrip_slash h" by simp
    obtain sl where sl: "h = rstrip_slash h @ sl" "list_all (\<lambda>c. c = CHR ''/'') sl"
      using rstrip_slash_decomp by blast
    from True l have "h \<noteq> []" "last h = CHR ''/''" by auto
    then have "rstrip_slash h \<noteq> h" by (rule rstrip_slash_last)
    with sl(1) have "sl \<noteq> []" by auto
    with sl(2) obtain rest where "sl = CHR ''/'' # rest" by (cases sl) auto
    with p sl(1) f have "p = fst (os_path_split p) @ (CHR ''/'' # rest @ t)"
      by (metis append.assoc append_Cons)
    then show ?thesis by blast
  qed
qed

lemma all_slashes_dirname:
  assumes "list_all (\<lambda>c. c = CHR ''/'') p"
  shows "os_path_dirname p = p"
proof -
  from assms have "takeWhile (\<lambda>c. c \<noteq> CHR ''/'') (rev p) = []"
    by (cases "rev p") (auto simp: list_all_iff)
  moreover from assms have "dropWhile (\<lambda>c. c \<noteq> CHR ''/'') (rev p) = rev p"
    by (cases "rev p") (auto simp: list_all_iff)
  ultimately show ?thesis
    using assms by (simp add: os_path_dirname_def os_path_split_def Let_def)
qed

lemma is_path_or_ancestor_iff:
  "is_path_or_ancestor q p \<longleftrightarrow> q = p \<or> (\<exists>rest. p = q @ CHR ''/'' # rest)"
proof -
  have "take (Suc (length q)) p = q @ ''/'' \<longleftrightarrow> (\<exists>rest. p = q @ CHR ''/'' # rest)"
  proof
    assume t: "take (Suc (length q)) p = q @ ''/''"
    have "p = take (Suc (length q)) p @ drop (Suc (length q)) p" by simp
    with t have "p = q @ CHR ''/'' # drop (Suc (length q)) p" by simp
    then show "\<exists>rest. p = q @ CHR ''/'' # rest" ..
  next
    assume "\<exists>rest. p = q @ CHR ''/'' # rest"
    then show "take (Suc (length q)) p = q @ ''/''" by auto
  qed
  then show ?thesis by (simp add: is_path_or_ancestor_def)
qed

lemma makedirs_head_decomp:
  "\<exists>sfx. name = fst (makedirs_head_tail name) @ sfx
     \<and> (fst (makedirs_head_tail name) \<noteq> []
          \<and> \<not> list_all (\<lambda>c. c = CHR ''/'') (fst (makedirs_head_tail name))
          \<longrightarrow> (\<exists>rest. sfx = CHR ''/'' # rest))"
proof (cases "snd (os_path_split name) = []")
  case False
  then show ?thesis using os_path_split_decomp [of name] by (simp add: makedirs_head_tail_def)
next
  case True
  let ?h1 = "fst (os_path_split name)"
  from True have h: "fst (makedirs_head_tail name) = fst (os_path_split ?h1)"
    by (simp add: makedirs_head_tail_def)
  obtain s1 where s1: "name = ?h1 @ s1" using os_path_split_decomp [of name] by blast
  obtain s2 where s2: "?h1 = fst (os_path_split ?h1) @ s2"
    and r: "fst (os_path_split ?h1) \<noteq> [] \<and> \<not> list_all (\<lambda>c. c = CHR ''/'') (fst (os_path_split ?h1))
          \<longrightarrow> (\<exists>rest. s2 = CHR ''/'' # rest)"
    using os_path_split_decomp [of ?h1] by blast
  from s1 s2 have "name = fst (os_path_split ?h1) @ (s2 @ s1)" by (metis append.assoc)
  moreover from r have "fst (os_path_split ?h1) \<noteq> [] \<and> \<not> list_all (\<lambda>c. c = CHR ''/'') (fst (os_path_split ?h1))
          \<longrightarrow> (\<exists>rest. s2 @ s1 = CHR ''/'' # rest)" by auto
  ultimately show ?thesis unfolding h by blast
qed

lemma os_mkdir_changes:
  "os_mkdir p fs = (r, fs') \<Longrightarrow> fs' q \<noteq> fs q \<Longrightarrow> q = p \<and> os_path_dirname p \<noteq> p"
  by (auto simp: os_mkdir_def Let_def split: if_splits)

lemma mkdir_exist_ok_changes:
  "mkdir_exist_ok p fs = (r, fs') \<Longrightarrow> fs' q \<noteq> fs q \<Longrightarrow> q = p \<and> os_path_dirname p \<noteq> p"
  by (auto simp: mkdir_exist_ok_def split: prod.splits sum.splits if_splits dest: os_mkdir_changes)

lemma os_makedirs_changes:
  "os_makedirs name fs = (r, fs') \<Longrightarrow> fs' q \<noteq> fs q \<Longrightarrow>
     is_path_or_ancestor q name \<and> os_path_dirname q \<noteq> q"
proof (induction name fs arbitrary: r fs' rule: os_makedirs.induct)
  case (1 name fs)
  let ?head = "fst (makedirs_head_tail name)"
  let ?tail = "snd (makedirs_head_tail name)"
  show ?case
  proof (cases "?head \<noteq> [] \<and> ?tail \<noteq> [] \<and> \<not> os_path_exists fs ?head")
    case False
    with "1.prems"(1) have "mkdir_exist_ok name fs = (r, fs')"
      by (subst (asm) os_makedirs.simps) (auto simp: Let_def)
    from mkdir_exist_ok_changes [OF this "1.prems"(2)] show ?thesis
      by (simp add: is_path_or_ancestor_def)
  next
    case True
    obtain r1 fs1 where rec: "os_makedirs ?head fs = (r1, fs1)" by (cases "os_makedirs ?head fs")
    from "1.prems"(1) True rec
    have last: "fs' = fs1 \<or> mkdir_exist_ok name fs1 = (r, fs')"
      by (subst (asm) os_makedirs.simps) (auto simp: Let_def split: sum.splits if_splits)
    show ?thesis
    proof (cases "fs1 q = fs q")
      case True
      with "1.prems"(2) last have "mkdir_exist_ok name fs1 = (r, fs')" "fs' q \<noteq> fs1 q" by auto
      from mkdir_exist_ok_changes [OF this] show ?thesis by (simp add: is_path_or_ancestor_def)
    next
      case False
      from "1.IH" [OF refl refl _ rec] True False
      have q: "is_path_or_ancestor q ?head" and d: "os_path_dirname q \<noteq> q" by auto
      obtain sfx where sfx: "name = ?head @ sfx"
        and sl: "?head \<noteq> [] \<and> \<not> list_all (\<lambda>c. c = CHR ''/'') ?head \<longrightarrow> (\<exists>rest. sfx = CHR ''/'' # rest)"
        using makedirs_head_decomp [of name] by blast
      from q have "q = ?head \<or> (\<exists>rest. ?head = q @ CHR ''/'' # rest)"
        by (simp add: is_path_or_ancestor_iff)
      then have "\<exists>rest. name = q @ CHR ''/'' # rest"
      proof
        assume eq: "q = ?head"
        with d all_slashes_dirname [of ?head] have "\<not> list_all (\<lambda>c. c = CHR ''/'') ?head" by auto
        with sl True obtain rest where "sfx = CHR ''/'' # rest" by auto
        with sfx eq show ?thesis by auto
      next
        assume "\<exists>rest. ?head = q @ CHR ''/'' # rest"
        then obtain rest where "?head = q @ CHR ''/'' # rest" ..
        with sfx have "name = q @ CHR ''/'' # (rest @ sfx)" by (metis append.assoc append_Cons)
        then show ?thesis ..
      qed
      with d show ?thesis by (simp add: is_path_or_ancestor_iff)
    qed
  qed
qed

lemma create_directories_loop_changes:
  "create_directories_loop path ds fs = (r, fs') \<Longrightarrow> fs' q \<noteq> fs q \<Longrightarrow>
     \<exists>d\<in>set ds. is_path_or_ancestor q (os_path_join path (filename2osformat d))"
proof (induction ds arbitrary: fs)
  case Nil
  then show ?case by simp
next
  case (Cons d ds)
  let ?p = "os_path_join path (filename2osformat d)"
  show ?case
  proof (cases "os_path_exists fs ?p")
    case True
    with Cons.prems have "create_directories_loop path ds fs = (r, fs') \<or> fs' = fs"
      by (auto simp: Let_def split: if_splits)
    with Cons.prems(2) Cons.IH [of fs] show ?thesis by auto
  next
    case False
    obtain r1 fs1 where mk: "os_makedirs ?p fs = (r1, fs1)" by (cases "os_makedirs ?p fs")
    with False Cons.prems(1)
    have rest: "fs' = fs1 \<or> create_directories_loop path ds fs1 = (r, fs')"
      by (auto simp: Let_def split: sum.splits)
    show ?thesis
    proof (cases "fs1 q = fs q")
      case True
      with Cons.prems(2) rest have "create_directories_loop path ds fs1 = (r, fs')" "fs' q \<noteq> fs1 q"
        by auto
      from Cons.IH [OF this] show ?thesis by auto
    next
      case False
      with os_makedirs_changes [OF mk] show ?thesis by auto
    qed
  qed
qed

subsection \<open>When directory creation succeeds\<close>

text \<open>
  Let \<open>S\<close> be a set of paths none of which is a regular file, each with a name other
  than \<^verbatim>\<open>.\<close>, and each with a parent that is a directory or itself in \<open>S\<close> (or with no
  parent, a relative name). Then \<^verbatim>\<open>os.makedirs\<close> creates any absent path of \<open>S\<close>.
\<close>

lemma makedirs_head_tail_named:
  "snd (os_path_split p) \<noteq> [] \<Longrightarrow> makedirs_head_tail p = (os_path_dirname p, os_path_basename p)"
  by (simp add: makedirs_head_tail_def os_path_dirname_def os_path_basename_def)

lemma os_mkdir_succeeds:
  "p \<noteq> [] \<Longrightarrow> os_path_dirname p = [] \<or> fs (os_path_dirname p) = Some Dir \<Longrightarrow> fs p = None \<Longrightarrow>
     os_mkdir p fs = (Inr (), fs(p \<mapsto> Dir))"
  by (auto simp: os_mkdir_def Let_def)

lemma mkdir_exist_ok_succeeds:
  assumes "p \<noteq> []" and "os_path_dirname p = [] \<or> fs (os_path_dirname p) = Some Dir"
    and "fs p = None \<or> fs p = Some Dir"
  shows "\<exists>fs'. mkdir_exist_ok p fs = (Inr (), fs') \<and> fs' p = Some Dir"
proof (cases "fs p")
  case None
  with os_mkdir_succeeds [of p fs, OF assms(1,2)] show ?thesis by (simp add: mkdir_exist_ok_def)
next
  case (Some nd)
  with assms(3) have d: "fs p = Some Dir" by simp
  obtain r fs1 where m: "os_mkdir p fs = (r, fs1)" by (cases "os_mkdir p fs")
  with d have "fs1 = fs" by (auto simp: os_mkdir_def Let_def split: if_splits)
  with m d show ?thesis
    by (cases r) (auto simp: mkdir_exist_ok_def os_path_isdir_def)
qed

lemma os_makedirs_succeeds:
  assumes inv: "\<forall>p\<in>S. os_path_basename p \<noteq> [] \<and> os_path_basename p \<noteq> ''.''
                  \<and> (fs p = None \<or> fs p = Some Dir)
                  \<and> (os_path_dirname p = [] \<or> fs (os_path_dirname p) = Some Dir
                       \<or> os_path_dirname p \<in> S)"
  shows "name \<in> S \<Longrightarrow> fs name = None \<Longrightarrow>
           \<exists>fs'. os_makedirs name fs = (Inr (), fs') \<and> fs' name = Some Dir"
proof (induction "length name" arbitrary: name rule: less_induct)
  case less
  let ?head = "os_path_dirname name"
  let ?tail = "os_path_basename name"
  from inv less.prems(1) have tail: "?tail \<noteq> []" "?tail \<noteq> ''.''"
    and parent: "?head = [] \<or> fs ?head = Some Dir \<or> ?head \<in> S" by auto
  from tail(1) have ht: "makedirs_head_tail name = (?head, ?tail)"
    by (simp add: makedirs_head_tail_named os_path_basename_def)
  from tail(1) have ne: "name \<noteq> []"
    by (auto simp: os_path_basename_def os_path_split_def Let_def)
  show ?case
  proof (cases "?head \<noteq> [] \<and> \<not> os_path_exists fs ?head")
    case False
    then have p: "?head = [] \<or> fs ?head = Some Dir"
      using parent inv by (auto simp: os_path_exists_def)
    from False tail ht have "os_makedirs name fs = mkdir_exist_ok name fs"
      by (subst os_makedirs.simps) (auto simp: Let_def)
    with mkdir_exist_ok_succeeds [of name fs, OF ne p] less.prems(2) show ?thesis by simp
  next
    case True
    with parent have hS: "?head \<in> S" and hN: "fs ?head = None"
      by (auto simp: os_path_exists_def)
    have "length ?head < length name"
      using os_path_split_shorter [of name] tail(1)
      by (simp add: os_path_dirname_def os_path_basename_def)
    from less.hyps [OF this hS hN] obtain fs1 where
      rec: "os_makedirs ?head fs = (Inr (), fs1)" and hd: "fs1 ?head = Some Dir" by blast
    from os_makedirs_adds [OF rec] less.prems(2) have "fs1 name = None \<or> fs1 name = Some Dir"
      unfolding only_adds_directories_def by metis
    from mkdir_exist_ok_succeeds [of name fs1, OF ne _ this] hd obtain fs' where
      m: "mkdir_exist_ok name fs1 = (Inr (), fs')" "fs' name = Some Dir" by blast
    from True tail ht rec m(1) have "os_makedirs name fs = (Inr (), fs')"
      by (subst os_makedirs.simps) (simp add: Let_def)
    with m(2) show ?thesis by simp
  qed
qed

lemma creatable_preserved:
  assumes "only_adds_directories fs fs1"
    and "\<forall>p\<in>S. os_path_basename p \<noteq> [] \<and> os_path_basename p \<noteq> ''.''
                  \<and> (fs p = None \<or> fs p = Some Dir)
                  \<and> (os_path_dirname p = [] \<or> fs (os_path_dirname p) = Some Dir
                       \<or> os_path_dirname p \<in> S)"
  shows "\<forall>p\<in>S. os_path_basename p \<noteq> [] \<and> os_path_basename p \<noteq> ''.''
                  \<and> (fs1 p = None \<or> fs1 p = Some Dir)
                  \<and> (os_path_dirname p = [] \<or> fs1 (os_path_dirname p) = Some Dir
                       \<or> os_path_dirname p \<in> S)"
proof
  fix p
  assume "p \<in> S"
  with assms(2) have b: "os_path_basename p \<noteq> [] \<and> os_path_basename p \<noteq> ''.''"
    and n: "fs p = None \<or> fs p = Some Dir"
    and d: "os_path_dirname p = [] \<or> fs (os_path_dirname p) = Some Dir \<or> os_path_dirname p \<in> S"
    by auto
  from assms(1) have "fs1 p = fs p \<or> fs1 p = Some Dir"
    unfolding only_adds_directories_def by metis
  with n have n1: "fs1 p = None \<or> fs1 p = Some Dir" by auto
  from d only_adds_directories_keeps [OF assms(1)]
  have "os_path_dirname p = [] \<or> fs1 (os_path_dirname p) = Some Dir \<or> os_path_dirname p \<in> S"
    by blast
  with b n1 show "os_path_basename p \<noteq> [] \<and> os_path_basename p \<noteq> ''.''
                  \<and> (fs1 p = None \<or> fs1 p = Some Dir)
                  \<and> (os_path_dirname p = [] \<or> fs1 (os_path_dirname p) = Some Dir
                       \<or> os_path_dirname p \<in> S)" by simp
qed

lemma create_directories_loop_succeeds:
  assumes "\<forall>p\<in>S. os_path_basename p \<noteq> [] \<and> os_path_basename p \<noteq> ''.''
                  \<and> (fs p = None \<or> fs p = Some Dir)
                  \<and> (os_path_dirname p = [] \<or> fs (os_path_dirname p) = Some Dir
                       \<or> os_path_dirname p \<in> S)"
    and "\<forall>d\<in>set ds. os_path_join path (filename2osformat d) \<in> S"
  shows "\<exists>fs'. create_directories_loop path ds fs = (Inr (), fs')"
  using assms
proof (induction ds arbitrary: fs)
  case Nil
  then show ?case by simp
next
  case (Cons d ds)
  let ?p = "os_path_join path (filename2osformat d)"
  from Cons.prems(2) have pS: "?p \<in> S" and rest: "\<forall>d\<in>set ds. os_path_join path (filename2osformat d) \<in> S"
    by auto
  show ?case
  proof (cases "fs ?p")
    case None
    from os_makedirs_succeeds [OF Cons.prems(1) pS None] obtain fs1 where
      mk: "os_makedirs ?p fs = (Inr (), fs1)" by blast
    from creatable_preserved [OF os_makedirs_adds [OF mk] Cons.prems(1)]
    have "\<exists>fs'. create_directories_loop path ds fs1 = (Inr (), fs')"
      by (rule Cons.IH) (rule rest)
    with None mk show ?thesis by (simp add: os_path_exists_def)
  next
    case (Some nd)
    with Cons.prems(1) pS have "fs ?p = Some Dir" by auto
    with Cons.IH [OF Cons.prems(1) rest] show ?thesis
      by (simp add: os_path_exists_def os_path_isdir_def)
  qed
qed

text \<open>
  Claim C7. \<open>backup\<close> (line 280 onwards) creates the missing directories first: when
  the creation succeeds, the rest of the run, verification and every pull, is the run
  with no missing directory in the file system the creation left, where it only added
  directories, each with its parent, and where every missing directory is a directory
  (for a name whose last component is not \<^verbatim>\<open>.\<close>, which the model does not resolve);
  when it raises, the run ends with that exception and no pull. Creation does succeed,
  for a list of any length, whenever the paths to create lie in a set \<open>S\<close> of paths none
  of which is a regular file, each named other than \<^verbatim>\<open>.\<close> and each with a parent that
  is a directory or in \<open>S\<close>: missing parents are created on the way. Whatever the
  outcome, the only paths that change are missing directories and directories above
  them. Creation is idempotent: run again on its own result, or on directories that all
  exist, it succeeds and changes nothing. A regular file at the path of a missing
  directory makes it raise; when that directory is the only one the exception is the
  \<^verbatim>\<open>TypeError\<close> of line 82, naming the path, and nothing has changed.
\<close>

theorem directories_created_before_pull:
  fixes e :: env and a :: args and w :: world and dst_path :: string
    and missing_dirs :: "string list" and S :: "string set"
  defines "full \<equiv> \<lambda>d. os_path_join dst_path (filename2osformat d)"
  defines "created \<equiv> create_all_directories dst_path missing_dirs (w_fs w)"
  shows
    "(\<forall>fs1. created = (Inr (), fs1) \<longrightarrow>
        backup e a src_path dst_path missing_files existing_files missing_dirs w
          = backup e a src_path dst_path missing_files existing_files [] (w\<lparr>w_fs := fs1\<rparr>)
        \<and> only_adds_directories (w_fs w) fs1
        \<and> ((\<forall>d\<in>set missing_dirs. snd (makedirs_head_tail (full d)) \<noteq> ''.'') \<longrightarrow>
             (\<forall>d\<in>set missing_dirs. os_path_isdir fs1 (full d))
             \<and> create_all_directories dst_path missing_dirs fs1 = (Inr (), fs1)))
     \<and> (\<forall>x fs1. created = (Inl x, fs1) \<longrightarrow>
          backup e a src_path dst_path missing_files existing_files missing_dirs w
            = (Inl x, w\<lparr>w_fs := fs1\<rparr>))
     \<and> ((\<forall>d\<in>set missing_dirs. os_path_isdir (w_fs w) (full d)) \<longrightarrow> created = (Inr (), w_fs w))
     \<and> (\<forall>d\<in>set missing_dirs. os_path_isfile (w_fs w) (full d) \<longrightarrow>
          (\<exists>x fs1. created = (Inl x, fs1)))
     \<and> (\<forall>d. os_path_isfile (w_fs w) (full d) \<longrightarrow>
          create_all_directories dst_path [d] (w_fs w)
            = (Inl (TypeError_need_to_be_directory (full d)), w_fs w))
     \<and> ((\<forall>d\<in>set missing_dirs. full d \<in> S)
          \<and> (\<forall>p\<in>S. os_path_basename p \<noteq> [] \<and> os_path_basename p \<noteq> ''.''
                 \<and> \<not> os_path_isfile (w_fs w) p
                 \<and> (os_path_dirname p = [] \<or> os_path_isdir (w_fs w) (os_path_dirname p)
                      \<or> os_path_dirname p \<in> S)) \<longrightarrow>
          (\<exists>fs1. created = (Inr (), fs1)
             \<and> (\<forall>d\<in>set missing_dirs. os_path_isdir fs1 (full d))))
     \<and> (\<forall>r fs1 q. created = (r, fs1) \<and> fs1 q \<noteq> w_fs w q \<longrightarrow>
          (\<exists>d\<in>set missing_dirs. is_path_or_ancestor q (full d)))"
proof (intro conjI allI impI ballI)
  fix fs1
  assume c: "created = (Inr (), fs1)"
  then show "backup e a src_path dst_path missing_files existing_files missing_dirs w
          = backup e a src_path dst_path missing_files existing_files [] (w\<lparr>w_fs := fs1\<rparr>)"
    unfolding created_def by (rule backup_after_directories)
  from c show "only_adds_directories (w_fs w) fs1"
    unfolding created_def create_all_directories_def by (rule create_directories_loop_adds)
  assume t: "\<forall>d\<in>set missing_dirs. snd (makedirs_head_tail (full d)) \<noteq> ''.''"
  have dirs: "fs1 (full d) = Some Dir" if "d \<in> set missing_dirs" for d
    using c t that create_directories_loop_isdir [of dst_path "sort missing_dirs" "w_fs w" "()" fs1 d]
    by (simp add: created_def create_all_directories_def full_def)
  then show "os_path_isdir fs1 (full d)" if "d \<in> set missing_dirs" for d
    using that by (simp add: os_path_isdir_def)
  from dirs show "create_all_directories dst_path missing_dirs fs1 = (Inr (), fs1)"
    unfolding create_all_directories_def
    by (intro create_directories_loop_idem) (simp add: full_def)
next
  fix x fs1
  assume "created = (Inl x, fs1)"
  then show "backup e a src_path dst_path missing_files existing_files missing_dirs w
            = (Inl x, w\<lparr>w_fs := fs1\<rparr>)"
    by (simp add: created_def backup_def)
next
  assume "\<forall>d\<in>set missing_dirs. os_path_isdir (w_fs w) (full d)"
  then show "created = (Inr (), w_fs w)"
    unfolding created_def create_all_directories_def
    by (intro create_directories_loop_idem) (simp add: full_def os_path_isdir_def)
next
  fix d
  assume "d \<in> set missing_dirs" and "os_path_isfile (w_fs w) (full d)"
  then show "\<exists>x fs1. created = (Inl x, fs1)"
    using create_directories_loop_file [of d "sort missing_dirs" "w_fs w" dst_path]
    by (auto simp: created_def create_all_directories_def full_def os_path_isfile_iff)
next
  fix d
  assume "os_path_isfile (w_fs w) (full d)"
  then show "create_all_directories dst_path [d] (w_fs w)
            = (Inl (TypeError_need_to_be_directory (full d)), w_fs w)"
    by (auto simp: create_all_directories_def full_def os_path_isfile_iff os_path_exists_def
          os_path_isdir_def)
next
  assume h: "(\<forall>d\<in>set missing_dirs. full d \<in> S)
          \<and> (\<forall>p\<in>S. os_path_basename p \<noteq> [] \<and> os_path_basename p \<noteq> ''.''
                 \<and> \<not> os_path_isfile (w_fs w) p
                 \<and> (os_path_dirname p = [] \<or> os_path_isdir (w_fs w) (os_path_dirname p)
                      \<or> os_path_dirname p \<in> S))"
  have nofile: "fs p = None \<or> fs p = Some Dir" if "\<not> os_path_isfile fs p" for fs p
  proof (cases "fs p")
    case None
    then show ?thesis by simp
  next
    case (Some nd)
    with that show ?thesis by (cases nd) (simp_all add: os_path_isfile_def)
  qed
  from h have inv: "\<forall>p\<in>S. os_path_basename p \<noteq> [] \<and> os_path_basename p \<noteq> ''.''
                  \<and> (w_fs w p = None \<or> w_fs w p = Some Dir)
                  \<and> (os_path_dirname p = [] \<or> w_fs w (os_path_dirname p) = Some Dir
                       \<or> os_path_dirname p \<in> S)"
    by (auto simp: os_path_isdir_def dest: nofile)
  from h have inS: "\<forall>d\<in>set (sort missing_dirs). os_path_join dst_path (filename2osformat d) \<in> S"
    by (simp add: full_def)
  from create_directories_loop_succeeds [OF inv inS] obtain fs1 where
    c: "create_directories_loop dst_path (sort missing_dirs) (w_fs w) = (Inr (), fs1)" by blast
  have "os_path_isdir fs1 (full d)" if d: "d \<in> set missing_dirs" for d
  proof -
    from h d have "os_path_basename (full d) \<noteq> []" "os_path_basename (full d) \<noteq> ''.''" by auto
    then have "snd (makedirs_head_tail (full d)) \<noteq> ''.''"
      by (simp add: makedirs_head_tail_named os_path_basename_def)
    with create_directories_loop_isdir [of dst_path "sort missing_dirs" "w_fs w" "()" fs1 d] c d
    show ?thesis by (simp add: full_def os_path_isdir_def)
  qed
  with c show "\<exists>fs1. created = (Inr (), fs1)
             \<and> (\<forall>d\<in>set missing_dirs. os_path_isdir fs1 (full d))"
    by (auto simp: created_def create_all_directories_def)
next
  fix r fs1 q
  assume "created = (r, fs1) \<and> fs1 q \<noteq> w_fs w q"
  then show "\<exists>d\<in>set missing_dirs. is_path_or_ancestor q (full d)"
    using create_directories_loop_changes [of dst_path "sort missing_dirs" "w_fs w" r fs1 q]
    by (auto simp: created_def create_all_directories_def full_def)
qed

lemma demo_dir_paths:
  "os_path_join ''/bk'' (filename2osformat ''x/y'') = ''/bk/x/y''"
  "os_path_join ''/bk'' (filename2osformat ''z'') = ''/bk/z''"
  "os_path_join ''/bk'' (filename2osformat ''x'') = ''/bk/x''"
  "makedirs_head_tail ''/bk/x/y'' = (''/bk/x'', ''y'')"
  "makedirs_head_tail ''/bk/x'' = (''/bk'', ''x'')"
  "makedirs_head_tail ''/bk/z'' = (''/bk'', ''z'')"
  "os_path_dirname ''/bk/x/y'' = ''/bk/x''"
  "os_path_dirname ''/bk/x'' = ''/bk''"
  "os_path_dirname ''/bk/z'' = ''/bk''"
  "os_path_basename ''/bk/x/y'' = ''y''"
  "os_path_basename ''/bk/x'' = ''x''"
  "os_path_basename ''/bk/z'' = ''z''"
  by (simp_all add: os_path_join_def filename2osformat_id makedirs_head_tail_def
        os_path_dirname_def os_path_basename_def os_path_split_def rstrip_slash_def)

lemma demo_fs_dirs:
  "demo_fs ''/bk'' = Some Dir"
  "demo_fs ''/bk/x'' = None"
  "demo_fs ''/bk/x/y'' = None"
  "demo_fs ''/bk/z'' = None"
  "demo_fs ''/bk/f2'' = Some (File 50 ''xx'')"
  by (simp_all add: demo_fs_def)

lemma demo_makedirs_parent:
  "os_makedirs ''/bk/x'' demo_fs = (Inr (), demo_fs(''/bk/x'' \<mapsto> Dir))"
  by (simp add: os_makedirs.simps [of "''/bk/x''"] Let_def demo_dir_paths demo_fs_dirs
        os_path_exists_def mkdir_exist_ok_def os_mkdir_def)

lemma demo_makedirs:
  "os_makedirs ''/bk/x/y'' demo_fs
     = (Inr (), demo_fs(''/bk/x'' \<mapsto> Dir, ''/bk/x/y'' \<mapsto> Dir))"
  by (simp add: os_makedirs.simps [of "''/bk/x/y''"] Let_def demo_dir_paths demo_fs_dirs
        demo_makedirs_parent os_path_exists_def mkdir_exist_ok_def os_mkdir_def)

lemma demo_makedirs_sibling:
  "fs ''/bk'' = Some Dir \<Longrightarrow> fs ''/bk/z'' = None \<Longrightarrow>
     os_makedirs ''/bk/z'' fs = (Inr (), fs(''/bk/z'' \<mapsto> Dir))"
  by (simp add: os_makedirs.simps [of "''/bk/z''"] Let_def demo_dir_paths
        os_path_exists_def mkdir_exist_ok_def os_mkdir_def)

lemma demo_sort: "sort [''x/y'', ''z''] = [''x/y'', ''z'']"
  by code_simp

lemma demo_create:
  "create_all_directories ''/bk'' [''x/y'', ''z''] demo_fs
     = (Inr (), demo_fs(''/bk/x'' \<mapsto> Dir, ''/bk/x/y'' \<mapsto> Dir, ''/bk/z'' \<mapsto> Dir))"
  by (simp add: create_all_directories_def demo_sort demo_dir_paths demo_makedirs demo_fs_dirs
        demo_makedirs_sibling os_path_exists_def)

theorem directories_created_before_pull_witness:
  "create_all_directories ''/bk'' [''x/y'', ''z''] demo_fs
     = (Inr (), demo_fs(''/bk/x'' \<mapsto> Dir, ''/bk/x/y'' \<mapsto> Dir, ''/bk/z'' \<mapsto> Dir))
   \<and> os_path_isdir (demo_fs(''/bk/x'' \<mapsto> Dir, ''/bk/x/y'' \<mapsto> Dir, ''/bk/z'' \<mapsto> Dir)) ''/bk/x/y''
   \<and> os_path_isdir (demo_fs(''/bk/x'' \<mapsto> Dir, ''/bk/x/y'' \<mapsto> Dir, ''/bk/z'' \<mapsto> Dir)) ''/bk/z''
   \<and> backup demo_phone demo_args ''/sdcard/bk'' ''/bk'' [''x/y/f3''] [] [''x/y'', ''z''] demo_pc
       = backup demo_phone demo_args ''/sdcard/bk'' ''/bk'' [''x/y/f3''] [] []
           (demo_pc\<lparr>w_fs := demo_fs(''/bk/x'' \<mapsto> Dir, ''/bk/x/y'' \<mapsto> Dir, ''/bk/z'' \<mapsto> Dir)\<rparr>)
   \<and> create_all_directories ''/bk'' [''x/y'', ''z'']
         (demo_fs(''/bk/x'' \<mapsto> Dir, ''/bk/x/y'' \<mapsto> Dir, ''/bk/z'' \<mapsto> Dir))
       = (Inr (), demo_fs(''/bk/x'' \<mapsto> Dir, ''/bk/x/y'' \<mapsto> Dir, ''/bk/z'' \<mapsto> Dir))
   \<and> os_path_isfile demo_fs ''/bk/f2''
   \<and> create_all_directories ''/bk'' [''f2''] demo_fs
       = (Inl (TypeError_need_to_be_directory ''/bk/f2''), demo_fs)"
proof -
  let ?dirs = "[''x/y'', ''z'']"
  let ?S = "{''/bk/x'', ''/bk/x/y'', ''/bk/z''}"
  let ?fs1 = "demo_fs(''/bk/x'' \<mapsto> Dir, ''/bk/x/y'' \<mapsto> Dir, ''/bk/z'' \<mapsto> Dir)"
  note t = directories_created_before_pull [where w = demo_pc and dst_path = "''/bk''"
          and missing_dirs = ?dirs and e = demo_phone and a = demo_args
          and src_path = "''/sdcard/bk''" and missing_files = "[''x/y/f3'']"
          and existing_files = "[]" and S = ?S]
  have pc: "w_fs demo_pc = demo_fs" by (simp add: demo_pc_def)
  have hyp: "(\<forall>d\<in>set ?dirs. os_path_join ''/bk'' (filename2osformat d) \<in> ?S)
          \<and> (\<forall>p\<in>?S. os_path_basename p \<noteq> [] \<and> os_path_basename p \<noteq> ''.''
                 \<and> \<not> os_path_isfile (w_fs demo_pc) p
                 \<and> (os_path_dirname p = [] \<or> os_path_isdir (w_fs demo_pc) (os_path_dirname p)
                      \<or> os_path_dirname p \<in> ?S))"
    by (simp add: pc demo_dir_paths demo_fs_dirs os_path_isfile_def os_path_isdir_def)
  from t [THEN conjunct2, THEN conjunct2, THEN conjunct2, THEN conjunct2, THEN conjunct2, THEN conjunct1, THEN mp, OF hyp]
  obtain fs1 where c: "create_all_directories ''/bk'' ?dirs demo_fs = (Inr (), fs1)"
    and d: "\<forall>d\<in>set ?dirs. os_path_isdir fs1 (os_path_join ''/bk'' (filename2osformat d))"
    unfolding pc by blast
  from c have fs1: "fs1 = ?fs1" by (simp add: demo_create)
  from d have dirs: "os_path_isdir ?fs1 ''/bk/x/y''" "os_path_isdir ?fs1 ''/bk/z''"
    unfolding fs1 by (simp_all add: demo_dir_paths)
  have tails: "\<forall>d\<in>set ?dirs. snd (makedirs_head_tail (os_path_join ''/bk'' (filename2osformat d))) \<noteq> ''.''"
    by (simp add: demo_dir_paths)
  from t [THEN conjunct1, rule_format, of ?fs1] c fs1 tails
  have run: "backup demo_phone demo_args ''/sdcard/bk'' ''/bk'' [''x/y/f3''] [] ?dirs demo_pc
       = backup demo_phone demo_args ''/sdcard/bk'' ''/bk'' [''x/y/f3''] [] []
           (demo_pc\<lparr>w_fs := ?fs1\<rparr>)"
    and again: "create_all_directories ''/bk'' ?dirs ?fs1 = (Inr (), ?fs1)"
    unfolding pc by blast+
  have f: "os_path_isfile demo_fs ''/bk/f2''" by (simp add: os_path_isfile_def demo_fs_dirs)
  from t [THEN conjunct2, THEN conjunct2, THEN conjunct2, THEN conjunct2, THEN conjunct1, rule_format, of "''f2''"] f
  have conflict: "create_all_directories ''/bk'' [''f2''] demo_fs
       = (Inl (TypeError_need_to_be_directory ''/bk/f2''), demo_fs)"
    by (simp add: pc demo_paths)
  from c fs1 dirs run again f conflict show ?thesis by simp
qed

section \<open>Properties of the whole run\<close>

subsection \<open>The phases of a run\<close>

text \<open>
  With \<^verbatim>\<open>--verify\<close> the run stops at line 295; \<^verbatim>\<open>verify\<close> returns only when every
  existing file is a local regular file; deletion removes regular files only, and only
  the files it is given; a pull phase that returns has called \<^verbatim>\<open>adb pull\<close> once for
  every file of its list, in order.
\<close>

lemma backup_verify_no_pull:
  "args_verify a \<Longrightarrow>
     w_pulls (snd (backup e a src_path dst_path missing_files existing_files missing_dirs w))
       = w_pulls w
     \<and> fst (backup e a src_path dst_path missing_files existing_files missing_dirs w)
         \<noteq> Inr (Reported out)"
  by (simp add: backup_def split: prod.splits sum.splits)

lemma verify_Inr_files:
  assumes "verify e fs src_path dst_path existing_files = Inr bad"
  shows "(\<forall>f\<in>set existing_files. os_path_isfile fs (os_path_join dst_path (filename2osformat f)))
         \<and> set bad \<subseteq> set existing_files"
proof -
  from assms verify_Inr_iff [of e fs src_path dst_path existing_files]
  have all: "\<forall>f\<in>set existing_files.
        os_path_isfile fs (os_path_join dst_path (filename2osformat f))
        \<and> \<not> isl (get_src_sha1sum e src_path f) \<and> \<not> isl (get_src_file_size e src_path f)"
    by blast
  then have "verify e fs src_path dst_path existing_files =
           Inr (filter (\<lambda>f. get_src_sha1sum e src_path f
                               \<noteq> Inr (node_hash (fs (os_path_join dst_path (filename2osformat f))))
                           \<or> get_src_file_size e src_path f
                               \<noteq> Inr (node_size (fs (os_path_join dst_path (filename2osformat f)))))
                       existing_files)"
    by (intro verify_files) simp_all
  with assms have "set bad \<subseteq> set existing_files" by auto
  with all show ?thesis by simp
qed


lemma verify_and_repair_result:
  "verify_and_repair e a src_path dst_path missing_files existing_files fs
     = (Inr (bad, missing1, existing1), fs1) \<Longrightarrow>
   verify e fs src_path dst_path existing_files = Inr bad
   \<and> missing1 = missing_files @ bad
   \<and> existing1 = set_difference (py_set existing_files) (py_set bad)"
  by (auto simp: verify_and_repair_def split: sum.splits prod.splits if_splits)

lemma verify_and_repair_declined:
  "verify e fs src_path dst_path existing_files = Inr bad \<Longrightarrow>
   \<not> args_yes a \<Longrightarrow> \<not> answer_delete e \<Longrightarrow>
   verify_and_repair e a src_path dst_path missing_files existing_files fs
     = (Inr (bad, missing_files @ bad, set_difference (py_set existing_files) (py_set bad)), fs)"
  by (simp add: verify_and_repair_def)

lemma set_override_step: "set missing_files \<subseteq> set (override_step e a missing_files existing_files)"
  by (simp add: override_step_def)

lemma pull_and_report_pulls:
  assumes "pull_and_report e a src_path dst_path missing_files existing_files bad w = (Inr r, w1)"
  shows "w_pulls w1 = w_pulls w @ map (\<lambda>f. (linux_path_build src_path f,
                         os_path_dirname (os_path_join dst_path (filename2osformat f))))
                       (override_step e a missing_files existing_files)"
proof -
  let ?m = "override_step e a missing_files existing_files"
  from assms obtain failed where
    p: "pull_missing_files e src_path dst_path ?m w = (Inr failed, w1)"
    by (auto simp: pull_and_report_def Let_def split: prod.splits sum.splits)
  show ?thesis
  proof (cases "?m = []")
    case True
    with p show ?thesis by (simp add: pull_missing_files_def)
  next
    case False
    with p have "pull_loop e src_path dst_path ?m [] w = (Inr failed, w1)"
      by (auto simp: pull_missing_files_def split: sum.splits)
    from pull_loop_attempts_each [OF this] show ?thesis by simp
  qed
qed





subsection \<open>Runs of the concrete device\<close>

lemma demo_reconcile:
  "get_missing_and_existing_files ([''dirA/f1'', ''f2''], [''dirA'']) ([''dirA/f1'', ''f2''], [''dirA''])
     = Inr ([], [''dirA/f1'', ''f2''], [], [''dirA''])"
  by code_simp

lemma demo_verify:
  "verify demo_phone demo_fs ''/sdcard/bk'' ''/bk'' [''dirA/f1'', ''f2''] = Inr [''f2'']"
  by code_simp

lemma demo_fs_lookup:
  "demo_fs ''/usr/bin/adb'' = Some (File 1 ''adb'')"
  "demo_fs ''/bk/dirA/f1'' = Some (File 100 ''d1'')"
  by (simp_all add: demo_fs_def)

lemma demo_phone_answers:
  "devices_listed demo_phone = Inr True"
  "src_path_type demo_phone p = Inr ''directory''"
  "src_listing demo_phone p = Inr ([''dirA/f1'', ''f2''], [''dirA''])"
  "dst_listing demo_phone p = ([''dirA/f1'', ''f2''], [''dirA''])"
  "\<not> answer_delete demo_phone"
  "\<not> answer_override demo_phone"
  by (simp_all add: demo_phone_def)

lemma demo_args_fields:
  "args_src_path demo_args = ''/sdcard/bk''"
  "args_dst_path demo_args = ''/bk''"
  "args_adb_path demo_args = Some ''/usr/bin/adb''"
  "args_yes demo_args"
  "\<not> args_override demo_args"
  "\<not> args_verify demo_args"
  "\<not> args_auto demo_args"
  by (simp_all add: demo_args_def)

lemma demo_pc_fields:
  "w_fs demo_pc = demo_fs"
  "w_pulls demo_pc = []"
  "demo_pc\<lparr>w_fs := fs\<rparr> = \<lparr>w_fs = fs, w_pulls = []\<rparr>"
  by (simp_all add: demo_pc_def)

lemma demo_main_is_backup:
  assumes "args_src_path a = ''/sdcard/bk''" and "args_dst_path a = ''/bk''"
    and "args_adb_path a = Some ''/usr/bin/adb''"
  shows "main demo_phone a demo_pc
     = backup demo_phone a ''/sdcard/bk'' ''/bk'' [] [''dirA/f1'', ''f2''] [] demo_pc"
  using assms
  by (simp add: main_def Let_def demo_pc_fields os_path_isfile_def os_path_isdir_def
        demo_fs_lookup demo_fs_dirs demo_phone_answers demo_reconcile)

lemma demo_repair_approved:
  "args_yes a \<Longrightarrow>
   verify_and_repair demo_phone a ''/sdcard/bk'' ''/bk'' [] [''dirA/f1'', ''f2''] demo_fs
     = (Inr ([''f2''], [''f2''], [''dirA/f1'']), demo_fs(''/bk/f2'' := None))"
  by (simp add: verify_and_repair_def demo_verify os_remove_def demo_fs_dirs
        demo_paths set_difference_def py_set_def)

lemma demo_repair_declined:
  "\<not> args_yes a \<Longrightarrow>
   verify_and_repair demo_phone a ''/sdcard/bk'' ''/bk'' [] [''dirA/f1'', ''f2''] demo_fs
     = (Inr ([''f2''], [''f2''], [''dirA/f1'']), demo_fs)"
  by (simp add: verify_and_repair_def demo_verify demo_phone_answers
        set_difference_def py_set_def)

lemma demo_backup_verify:
  "args_verify a \<Longrightarrow> args_yes a \<Longrightarrow>
   backup demo_phone a ''/sdcard/bk'' ''/bk'' [] [''dirA/f1'', ''f2''] [] demo_pc
     = (Inr (Verified_only \<lparr>final_missing_files = [''f2''],
                             final_existing_files = [''dirA/f1''],
                             final_bad_files = Some [''f2''],
                             final_failed_files = []\<rparr>),
        \<lparr>w_fs = demo_fs(''/bk/f2'' := None), w_pulls = []\<rparr>)"
  by (simp add: backup_def create_all_directories_Nil demo_repair_approved demo_pc_fields)

lemma demo_pull_and_report:
  "\<not> args_override a \<Longrightarrow>
   pull_and_report demo_phone a ''/sdcard/bk'' ''/bk'' [''f2''] [''dirA/f1''] (Some [''f2''])
       \<lparr>w_fs = fs, w_pulls = []\<rparr>
     = (Inr (Reported \<lparr>final_missing_files = [''f2''],
                        final_existing_files = [''dirA/f1''],
                        final_bad_files = Some [''f2''],
                        final_failed_files = []\<rparr>),
        \<lparr>w_fs = fs(''/bk/f2'' \<mapsto> File 50 ''d2''), w_pulls = [(''/sdcard/bk/f2'', ''/bk'')]\<rparr>)"
  by (simp add: pull_and_report_def override_step_def pull_missing_files_def Let_def
        get_src_file_size_def pull_file_cases demo_paths demo_phone_device)

lemma demo_backup_auto_declined:
  "args_auto a \<Longrightarrow> \<not> args_verify a \<Longrightarrow> \<not> args_yes a \<Longrightarrow> \<not> args_override a \<Longrightarrow>
   backup demo_phone a ''/sdcard/bk'' ''/bk'' [] [''dirA/f1'', ''f2''] [] demo_pc
     = (Inr (Reported \<lparr>final_missing_files = [''f2''],
                        final_existing_files = [''dirA/f1''],
                        final_bad_files = Some [''f2''],
                        final_failed_files = []\<rparr>),
        \<lparr>w_fs = demo_fs(''/bk/f2'' \<mapsto> File 50 ''d2''), w_pulls = [(''/sdcard/bk/f2'', ''/bk'')]\<rparr>)"
  by (simp add: backup_def create_all_directories_Nil demo_repair_declined demo_pc_fields
        demo_pull_and_report)

subsection \<open>Verification and repair\<close>

text \<open>
  Claim C1. The repair scenario with both \<^verbatim>\<open>--verify\<close> and \<^verbatim>\<open>--auto\<close>: the claim is
  that the faulty file is deleted and pulled again. The program tests \<^verbatim>\<open>args.verify\<close>
  alone at line 294: whenever \<^verbatim>\<open>--verify\<close> is set, with \<^verbatim>\<open>--auto\<close> or without, no
  file is pulled and the run never reaches the final report. On the concrete device the
  faulty \<^verbatim>\<open>f2\<close> is reported and deleted and the run returns without it.
\<close>

theorem verify_flag_stops_before_pull:
  "args_verify a \<Longrightarrow>
     w_pulls (snd (main e a w)) = w_pulls w
     \<and> (\<forall>out. fst (main e a w) \<noteq> Inr (Reported out))"
  by (simp add: main_def Let_def backup_verify_no_pull split: prod.splits sum.splits)

theorem verify_flag_stops_before_pull_witness:
  "args_verify (demo_args\<lparr>args_verify := True, args_auto := True\<rparr>)
   \<and> args_auto (demo_args\<lparr>args_verify := True, args_auto := True\<rparr>)
   \<and> main demo_phone (demo_args\<lparr>args_verify := True, args_auto := True\<rparr>) demo_pc
       = (Inr (Verified_only \<lparr>final_missing_files = [''f2''],
                               final_existing_files = [''dirA/f1''],
                               final_bad_files = Some [''f2''],
                               final_failed_files = []\<rparr>),
          \<lparr>w_fs = demo_fs(''/bk/f2'' := None), w_pulls = []\<rparr>)
   \<and> w_pulls (snd (main demo_phone (demo_args\<lparr>args_verify := True, args_auto := True\<rparr>) demo_pc))
       = w_pulls demo_pc"
  using verify_flag_stops_before_pull
          [of "demo_args\<lparr>args_verify := True, args_auto := True\<rparr>" demo_phone demo_pc]
  by (simp add: demo_main_is_backup demo_backup_verify demo_args_fields)

text \<open>
  Claim C9. Whenever the verification phase (lines 283--292) returns, the faulty files
  are those \<^verbatim>\<open>verify\<close> found, they are appended to the missing files and removed from
  the existing files, whatever the answer to the deletion prompt. When deletion is
  declined (no \<^verbatim>\<open>--yes\<close>, answer no), the local file system is unchanged, so the faulty
  files are still regular files there, and a continuing run (\<^verbatim>\<open>--auto\<close> without
  \<^verbatim>\<open>--verify\<close>) is the pull phase on the extended list in that file system: when it
  returns, every faulty file has been pulled.
\<close>

theorem faulty_files_requeued:
  fixes e :: env and a :: args and fs :: local_fs and dst_path :: string
  defines "full \<equiv> \<lambda>f. os_path_join dst_path (filename2osformat f)"
  shows
    "(\<forall>bad missing1 existing1 fs1.
        verify_and_repair e a src_path dst_path missing_files existing_files fs
          = (Inr (bad, missing1, existing1), fs1) \<longrightarrow>
        verify e fs src_path dst_path existing_files = Inr bad
        \<and> missing1 = missing_files @ bad
        \<and> set existing1 = set existing_files - set bad)
     \<and> (\<forall>bad. verify e fs src_path dst_path existing_files = Inr bad
            \<and> \<not> args_yes a \<and> \<not> answer_delete e \<longrightarrow>
          verify_and_repair e a src_path dst_path missing_files existing_files fs
            = (Inr (bad, missing_files @ bad,
                    set_difference (py_set existing_files) (py_set bad)), fs)
          \<and> (\<forall>f\<in>set bad. os_path_isfile fs (full f))
          \<and> (\<forall>w missing_dirs. args_auto a \<and> \<not> args_verify a
                \<and> create_all_directories dst_path missing_dirs (w_fs w) = (Inr (), fs) \<longrightarrow>
                backup e a src_path dst_path missing_files existing_files missing_dirs w
                  = pull_and_report e a src_path dst_path (missing_files @ bad)
                      (set_difference (py_set existing_files) (py_set bad)) (Some bad)
                      (w\<lparr>w_fs := fs\<rparr>)
                \<and> (\<forall>r w1. backup e a src_path dst_path missing_files existing_files
                              missing_dirs w = (Inr r, w1) \<longrightarrow>
                      (\<forall>f\<in>set bad. (linux_path_build src_path f, os_path_dirname (full f))
                                      \<in> set (w_pulls w1)))))"
proof (intro conjI allI impI ballI; (elim conjE)?)
  fix bad missing1 existing1 fs1
  assume "verify_and_repair e a src_path dst_path missing_files existing_files fs
          = (Inr (bad, missing1, existing1), fs1)"
  note r = verify_and_repair_result [OF this]
  from r show "verify e fs src_path dst_path existing_files = Inr bad" by simp
  from r show "missing1 = missing_files @ bad" by simp
  from r show "set existing1 = set existing_files - set bad"
    by (simp add: set_set_difference set_py_set)
next
  fix bad
  assume v: "verify e fs src_path dst_path existing_files = Inr bad"
    and n: "\<not> args_yes a" "\<not> answer_delete e"
  show "verify_and_repair e a src_path dst_path missing_files existing_files fs
            = (Inr (bad, missing_files @ bad,
                    set_difference (py_set existing_files) (py_set bad)), fs)"
    using verify_and_repair_declined [OF v n] .
  show "os_path_isfile fs (full f)" if "f \<in> set bad" for f
    using verify_Inr_files [OF v] that by (auto simp: full_def)
  fix w :: world and missing_dirs
  assume au: "args_auto a" "\<not> args_verify a"
    and c: "create_all_directories dst_path missing_dirs (w_fs w) = (Inr (), fs)"
  show b: "backup e a src_path dst_path missing_files existing_files missing_dirs w
                  = pull_and_report e a src_path dst_path (missing_files @ bad)
                      (set_difference (py_set existing_files) (py_set bad)) (Some bad)
                      (w\<lparr>w_fs := fs\<rparr>)"
    using au c by (simp add: backup_def verify_and_repair_declined [OF v n])
  fix r w1 f
  assume "backup e a src_path dst_path missing_files existing_files missing_dirs w = (Inr r, w1)"
    and f: "f \<in> set bad"
  with b have "pull_and_report e a src_path dst_path (missing_files @ bad)
                      (set_difference (py_set existing_files) (py_set bad)) (Some bad)
                      (w\<lparr>w_fs := fs\<rparr>) = (Inr r, w1)" by simp
  from pull_and_report_pulls [OF this] f
    set_override_step [of "missing_files @ bad" e a
      "set_difference (py_set existing_files) (py_set bad)"]
  show "(linux_path_build src_path f, os_path_dirname (full f)) \<in> set (w_pulls w1)"
    by (auto simp: full_def)
qed

theorem faulty_files_requeued_witness:
  "verify demo_phone demo_fs ''/sdcard/bk'' ''/bk'' [''dirA/f1'', ''f2''] = Inr [''f2'']
   \<and> \<not> args_yes (demo_args\<lparr>args_auto := True, args_yes := False\<rparr>)
   \<and> \<not> answer_delete demo_phone
   \<and> verify_and_repair demo_phone (demo_args\<lparr>args_auto := True, args_yes := False\<rparr>)
         ''/sdcard/bk'' ''/bk'' [] [''dirA/f1'', ''f2''] demo_fs
       = (Inr ([''f2''], [''f2''], [''dirA/f1'']), demo_fs)
   \<and> os_path_isfile demo_fs ''/bk/f2''
   \<and> main demo_phone (demo_args\<lparr>args_auto := True, args_yes := False\<rparr>) demo_pc
       = (Inr (Reported \<lparr>final_missing_files = [''f2''],
                          final_existing_files = [''dirA/f1''],
                          final_bad_files = Some [''f2''],
                          final_failed_files = []\<rparr>),
          \<lparr>w_fs = demo_fs(''/bk/f2'' \<mapsto> File 50 ''d2''), w_pulls = [(''/sdcard/bk/f2'', ''/bk'')]\<rparr>)
   \<and> (''/sdcard/bk/f2'', ''/bk'')
       \<in> set (w_pulls (snd (main demo_phone (demo_args\<lparr>args_auto := True, args_yes := False\<rparr>)
                                demo_pc)))"
proof -
  let ?a = "demo_args\<lparr>args_auto := True, args_yes := False\<rparr>"
  let ?files = "[''dirA/f1'', ''f2'']"
  have flags: "\<not> args_yes ?a" "\<not> answer_delete demo_phone" "args_auto ?a" "\<not> args_verify ?a"
    by (simp_all add: demo_args_fields demo_phone_answers)
  have m: "main demo_phone ?a demo_pc
             = backup demo_phone ?a ''/sdcard/bk'' ''/bk'' [] ?files [] demo_pc"
    by (simp add: demo_main_is_backup demo_args_fields)
  have b: "backup demo_phone ?a ''/sdcard/bk'' ''/bk'' [] ?files [] demo_pc
       = (Inr (Reported \<lparr>final_missing_files = [''f2''],
                          final_existing_files = [''dirA/f1''],
                          final_bad_files = Some [''f2''],
                          final_failed_files = []\<rparr>),
          \<lparr>w_fs = demo_fs(''/bk/f2'' \<mapsto> File 50 ''d2''), w_pulls = [(''/sdcard/bk/f2'', ''/bk'')]\<rparr>)"
    by (simp add: demo_backup_auto_declined demo_args_fields)
  have c: "create_all_directories ''/bk'' [] (w_fs demo_pc) = (Inr (), demo_fs)"
    by (simp add: create_all_directories_Nil demo_pc_fields)
  note t = faulty_files_requeued [where e = demo_phone and a = ?a and fs = demo_fs
      and dst_path = "''/bk''" and src_path = "''/sdcard/bk''" and missing_files = "[]"
      and existing_files = ?files]
  from t demo_verify flags
  have r: "verify_and_repair demo_phone ?a ''/sdcard/bk'' ''/bk'' [] ?files demo_fs
             = (Inr ([''f2''], [] @ [''f2''], set_difference (py_set ?files) (py_set [''f2''])), demo_fs)"
    and f: "\<forall>f\<in>set [''f2'']. os_path_isfile demo_fs (os_path_join ''/bk'' (filename2osformat f))"
    and p: "\<forall>r w1. backup demo_phone ?a ''/sdcard/bk'' ''/bk'' [] ?files [] demo_pc = (Inr r, w1) \<longrightarrow>
              (\<forall>f\<in>set [''f2'']. (linux_path_build ''/sdcard/bk'' f,
                   os_path_dirname (os_path_join ''/bk'' (filename2osformat f))) \<in> set (w_pulls w1))"
    using c by blast+
  from r have r': "verify_and_repair demo_phone ?a ''/sdcard/bk'' ''/bk'' [] ?files demo_fs
       = (Inr ([''f2''], [''f2''], [''dirA/f1'']), demo_fs)"
    by (simp add: set_difference_def py_set_def)
  from f have f': "os_path_isfile demo_fs ''/bk/f2''" by (simp add: demo_paths)
  from p b have p': "(''/sdcard/bk/f2'', ''/bk'')
       \<in> set (w_pulls (snd (backup demo_phone ?a ''/sdcard/bk'' ''/bk'' [] ?files [] demo_pc)))"
    by (simp add: demo_paths)
  from demo_verify flags r' f' b p' show ?thesis unfolding m by simp
qed









end
